theory Spec2Isabelle
  imports Main "HOL-Library.AList"
begin

section \<open>Python strings\<close>

text \<open>
  A Python \<open>str\<close> is modelled as a \<open>string\<close>; a \<open>char\<close> stands for the code point
  of the same number. \<open>isspace\<close> is \<open>str.isspace\<close> on these code points: the
  characters that \<open>str.strip()\<close> removes.
\<close>

definition isspace :: "char \<Rightarrow> bool" where
  "isspace c \<longleftrightarrow>
     (let n = (of_char c :: nat)
      in (9 \<le> n \<and> n \<le> 13) \<or> (28 \<le> n \<and> n \<le> 32) \<or> n = 133 \<or> n = 160)"

definition strip :: "string \<Rightarrow> string" where
  "strip s = rev (dropWhile isspace (rev (dropWhile isspace s)))"

definition startswith :: "string \<Rightarrow> string \<Rightarrow> bool" where
  "startswith s p \<longleftrightarrow> take (length p) s = p"

definition endswith :: "string \<Rightarrow> string \<Rightarrow> bool" where
  "endswith s p \<longleftrightarrow> length p \<le> length s \<and> drop (length s - length p) s = p"

text \<open>\<open>k in s\<close> for two strings: \<open>k\<close> occurs in \<open>s\<close> as a contiguous piece.\<close>

fun str_contains :: "string \<Rightarrow> string \<Rightarrow> bool" where
  "str_contains k [] = (k = [])"
| "str_contains k (c # s) = (startswith (c # s) k \<or> str_contains k s)"


section \<open>Values of the json module and Python exceptions\<close>

datatype pyfloat = Finite int int | Infinity bool | NaN

text \<open>
  What \<open>json.loads\<close> returns: \<open>None\<close>, \<open>bool\<close>, \<open>int\<close>, \<open>float\<close>, \<open>str\<close>, \<open>list\<close>
  and \<open>dict\<close>. A dict is the list of its items in insertion order.
\<close>

datatype json =
    JNull
  | JBool bool
  | JInt int
  | JFloat pyfloat
  | JString string
  | JArray "json list"
  | JObject "(string \<times> json) list"

text \<open>
  The exceptions the script tells apart: \<open>json.JSONDecodeError\<close> has a handler of its
  own, every other subclass of \<open>Exception\<close> reaches the handler of the item.
\<close>

datatype py_exn = JSONDecodeError | TypeError | OtherError string

text \<open>\<open>key in json_data\<close>, with a \<open>str\<close> on the left.\<close>

fun py_contains :: "string \<Rightarrow> json \<Rightarrow> py_exn + bool" where
  "py_contains k (JObject kvs) = Inr (k \<in> fst ` set kvs)"
| "py_contains k (JArray xs) = Inr (JString k \<in> set xs)"
| "py_contains k (JString s) = Inr (str_contains k s)"
| "py_contains k JNull = Inl TypeError"
| "py_contains k (JBool b) = Inl TypeError"
| "py_contains k (JInt i) = Inl TypeError"
| "py_contains k (JFloat f) = Inl TypeError"

text \<open>\<open>json_data[key] = v\<close>, with a \<open>str\<close> key: only a dict accepts it.\<close>

fun py_setitem :: "json \<Rightarrow> string \<Rightarrow> json \<Rightarrow> py_exn + json" where
  "py_setitem (JObject kvs) k v = Inr (JObject (AList.update k v kvs))"
| "py_setitem (JArray xs) k v = Inl TypeError"
| "py_setitem (JString s) k v = Inl TypeError"
| "py_setitem JNull k v = Inl TypeError"
| "py_setitem (JBool b) k v = Inl TypeError"
| "py_setitem (JInt i) k v = Inl TypeError"
| "py_setitem (JFloat f) k v = Inl TypeError"

section \<open>Configuration\<close>

definition INPUT_DIR :: string where
  "INPUT_DIR = ''unlabelled_dataset''"

definition NAME_SOURCE_DIR :: string where
  "NAME_SOURCE_DIR = ''mythril''"

definition OUTPUT_DIR :: string where
  "OUTPUT_DIR = ''gemini_output''"

text \<open>\<open>os.path.join\<close> of a directory and a name returned by \<open>os.listdir\<close>.\<close>

definition path_join :: "string \<Rightarrow> string \<Rightarrow> string" where
  "path_join d name = d @ ''/'' @ name"

text \<open>The three paths the loop body computes for a file of a category.\<close>

definition input_path_of :: "string \<Rightarrow> string \<Rightarrow> string" where
  "input_path_of category sol_file = path_join (path_join INPUT_DIR category) sol_file"

definition output_path_of :: "string \<Rightarrow> string" where
  "output_path_of contract_name = path_join OUTPUT_DIR (contract_name @ ''.json'')"

definition raw_path_of :: "string \<Rightarrow> string" where
  "raw_path_of contract_name = path_join OUTPUT_DIR (contract_name @ ''_raw.txt'')"

section \<open>The world outside the script\<close>

text \<open>
  A file of the output directory holds the text \<open>json.dump\<close> wrote for a document, the
  text \<open>f.write\<close> wrote, or what an interrupted write left behind.
\<close>

datatype file_content = JsonText json | RawText string | Truncated

text \<open>
  \<open>with open(path, "w") as f: ...\<close> goes well, raises in \<open>open\<close> (nothing is created
  or changed), or raises while writing to the opened file (the file exists, cut short).
\<close>

datatype write_fault = NoFault | OpenFault string | WriteFault string

definition write_file ::
  "write_fault \<Rightarrow> string \<Rightarrow> file_content \<Rightarrow> (string \<rightharpoonup> file_content)
     \<Rightarrow> (string \<rightharpoonup> file_content) \<times> py_exn option" where
  "write_file fault path content fs =
     (case fault of
        NoFault \<Rightarrow> (fs(path \<mapsto> content), None)
      | OpenFault msg \<Rightarrow> (fs, Some (OtherError msg))
      | WriteFault msg \<Rightarrow> (fs(path \<mapsto> Truncated), Some (OtherError msg)))"

text \<open>
  What the world answers while one contract is processed: the text read from the input
  file, the two readings of the clock, the text of the model's reply, and the fate of
  the two possible writes.
\<close>

record item_env =
  source_text :: "py_exn + string"
  start_clock :: int
  end_clock :: int
  reply :: "py_exn + string"
  json_write :: write_fault
  raw_write :: write_fault

text \<open>
  \<open>json_loads\<close> is \<open>json.loads\<close>, \<open>SYSTEM_PROMPT\<close> the prompt constant, and
  \<open>item_world\<close> gives the answers of the world by input path.
\<close>

record externals =
  json_loads :: "string \<Rightarrow> py_exn + json"
  SYSTEM_PROMPT :: string
  item_world :: "string \<Rightarrow> item_env"

text \<open>
  The state of the script: the output directory and the two counters. \<open>found\<close>,
  \<open>requests\<close> and \<open>errors\<close> record what the script does without storing it: the input
  paths it selects, the calls of \<open>generate_content\<close> (input path and prompt), and the
  messages of the item handler (contract name and exception).
\<close>

record state =
  out_files :: "string \<rightharpoonup> file_content"
  processed_count :: nat
  found_count :: nat
  found :: "string list"
  requests :: "(string \<times> string) list"
  errors :: "(string \<times> py_exn) list"

section \<open>The response clean-up\<close>

text \<open>The last of the three tests: a closing fence at the end is cut off.\<close>

definition strip_closer :: "string \<Rightarrow> string" where
  "strip_closer output =
     (if endswith output ''```'' then take (length output - 3) output else output)"

definition strip_fences :: "string \<Rightarrow> string" where
  "strip_fences text =
     (let output = strip text;
          output = (if startswith output ''```json'' then drop 7 output else output);
          output = (if startswith output ''```'' then drop 3 output else output);
          output = strip_closer output
      in strip output)"

section \<open>Filling the required fields\<close>

definition ensure_field :: "string \<Rightarrow> json \<Rightarrow> json \<Rightarrow> py_exn + json" where
  "ensure_field k v json_data =
     (case py_contains k json_data of
        Inl e \<Rightarrow> Inl e
      | Inr present \<Rightarrow> if \<not> present then py_setitem json_data k v else Inr json_data)"

definition backfill :: "int \<Rightarrow> int \<Rightarrow> int \<Rightarrow> string \<Rightarrow> json \<Rightarrow> py_exn + json" where
  "backfill start_time end_time duration sol_file json_data =
     (case ensure_field ''start'' (JInt start_time) json_data of
        Inl e \<Rightarrow> Inl e
      | Inr d1 \<Rightarrow>
     (case ensure_field ''end'' (JInt end_time) d1 of
        Inl e \<Rightarrow> Inl e
      | Inr d2 \<Rightarrow>
     (case ensure_field ''duration'' (JInt duration) d2 of
        Inl e \<Rightarrow> Inl e
      | Inr d3 \<Rightarrow>
     (case ensure_field ''contract'' (JString sol_file) d3 of
        Inl e \<Rightarrow> Inl e
      | Inr d4 \<Rightarrow> ensure_field ''tool'' (JString ''mythril'') d4))))"

section \<open>One contract\<close>

text \<open>The body of the inner \<open>try\<close>: parse, fill, write the report, count.\<close>

definition parse_and_save ::
  "externals \<Rightarrow> item_env \<Rightarrow> int \<Rightarrow> int \<Rightarrow> int \<Rightarrow> string \<Rightarrow> string \<Rightarrow> string \<Rightarrow> state
     \<Rightarrow> state \<times> py_exn option" where
  "parse_and_save ext env start_time end_time duration sol_file output_path output st =
     (case json_loads ext output of
        Inl e \<Rightarrow> (st, Some e)
      | Inr json_data \<Rightarrow>
          (case backfill start_time end_time duration sol_file json_data of
             Inl e \<Rightarrow> (st, Some e)
           | Inr json_data' \<Rightarrow>
               (case write_file (json_write env) output_path (JsonText json_data') (out_files st) of
                  (fs, Some e) \<Rightarrow> (st\<lparr>out_files := fs\<rparr>, Some e)
                | (fs, None) \<Rightarrow>
                    (st\<lparr>out_files := fs, processed_count := processed_count st + 1\<rparr>, None))))"

text \<open>The handler of \<open>json.JSONDecodeError\<close>: write the cleaned text, count.\<close>

definition save_raw :: "item_env \<Rightarrow> string \<Rightarrow> string \<Rightarrow> state \<Rightarrow> state \<times> py_exn option" where
  "save_raw env contract_name output st =
     (case write_file (raw_write env) (raw_path_of contract_name) (RawText output) (out_files st) of
        (fs, Some e) \<Rightarrow> (st\<lparr>out_files := fs\<rparr>, Some e)
      | (fs, None) \<Rightarrow>
          (st\<lparr>out_files := fs, processed_count := processed_count st + 1\<rparr>, None))"

definition build_prompt :: "externals \<Rightarrow> string \<Rightarrow> string" where
  "build_prompt ext contract_code =
     SYSTEM_PROMPT ext @ [CHR 0x0A, CHR 0x0A] @ ''Analyze this Solidity contract:''
       @ [CHR 0x0A, CHR 0x0A] @ contract_code"

text \<open>
  The body of the outer \<open>try\<close>. The result is the state reached and the exception that
  leaves the block, if one does.
\<close>

definition try_item ::
  "externals \<Rightarrow> string \<Rightarrow> string \<Rightarrow> string \<Rightarrow> string \<Rightarrow> state \<Rightarrow> state \<times> py_exn option" where
  "try_item ext sol_file contract_name input_path output_path st =
     (let env = item_world ext input_path
      in case source_text env of
           Inl e \<Rightarrow> (st, Some e)
         | Inr contract_code \<Rightarrow>
             (let start_time = start_clock env;
                  st1 = st\<lparr>requests := requests st @ [(input_path, build_prompt ext contract_code)]\<rparr>
              in case reply env of
                   Inl e \<Rightarrow> (st1, Some e)
                 | Inr text \<Rightarrow>
                     (let end_time = end_clock env;
                          duration = end_time - start_time;
                          output = strip_fences text;
                          (st2, raised) = parse_and_save ext env start_time end_time duration
                                            sol_file output_path output st1
                      in if raised = Some JSONDecodeError
                         then save_raw env contract_name output st2
                         else (st2, raised))))"

text \<open>The outer \<open>try\<close> with its handler, which reports the exception and goes on.\<close>

definition process_item ::
  "externals \<Rightarrow> string \<Rightarrow> string \<Rightarrow> string \<Rightarrow> string \<Rightarrow> state \<Rightarrow> state" where
  "process_item ext sol_file contract_name input_path output_path st =
     (case try_item ext sol_file contract_name input_path output_path st of
        (st', None) \<Rightarrow> st'
      | (st', Some e) \<Rightarrow> st'\<lparr>errors := errors st' @ [(contract_name, e)]\<rparr>)"

section \<open>The batch\<close>

text \<open>The body of the loop over the entries of one category directory.\<close>

definition process_file :: "externals \<Rightarrow> string set \<Rightarrow> string \<Rightarrow> string \<Rightarrow> state \<Rightarrow> state" where
  "process_file ext names category sol_file st =
     (if \<not> endswith sol_file ''.sol'' then st
      else
        let contract_name = take (length sol_file - 4) sol_file
        in if contract_name \<notin> names then st
           else
             let st1 = st\<lparr>found_count := found_count st + 1,
                         found := found st @ [input_path_of category sol_file]\<rparr>
             in if out_files st1 (output_path_of contract_name) \<noteq> None then st1
                else process_item ext sol_file contract_name (input_path_of category sol_file)
                       (output_path_of contract_name) st1)"

text \<open>
  An entry of the input directory: not a directory, or a directory with the names
  \<open>os.listdir\<close> returns for it.
\<close>

datatype dir_entry = NotDir | Dir "string list"

definition process_category ::
  "externals \<Rightarrow> string set \<Rightarrow> string \<times> dir_entry \<Rightarrow> state \<Rightarrow> state" where
  "process_category ext names entry st =
     (case entry of
        (category, NotDir) \<Rightarrow> st
      | (category, Dir files) \<Rightarrow>
          fold (process_file ext names category) files st)"

text \<open>
  The names of the reference directory: each entry of its listing comes with the answer
  of \<open>os.path.isdir\<close>.
\<close>

definition mythril_contract_names :: "(string \<times> bool) list \<Rightarrow> string set" where
  "mythril_contract_names listing = set (map fst (filter snd listing))"

definition run_batch ::
  "externals \<Rightarrow> (string \<times> bool) list \<Rightarrow> (string \<times> dir_entry) list \<Rightarrow> state \<Rightarrow> state" where
  "run_batch ext name_listing input_listing st =
     fold (process_category ext (mythril_contract_names name_listing)) input_listing st"

definition start_state :: "(string \<rightharpoonup> file_content) \<Rightarrow> state" where
  "start_state fs =
     \<lparr>out_files = fs, processed_count = 0, found_count = 0, found = [], requests = [],
      errors = []\<rparr>"

section \<open>Notions used by the statements\<close>

text \<open>The items of \<open>ds\<close> whose key the dict \<open>kvs\<close> does not have.\<close>

definition missing :: "(string \<times> json) list \<Rightarrow> (string \<times> json) list \<Rightarrow> (string \<times> json) list" where
  "missing kvs ds = filter (\<lambda>p. fst p \<notin> fst ` set kvs) ds"

text \<open>The five items the script knows by itself, in the order of its five tests.\<close>

definition defaults :: "int \<Rightarrow> int \<Rightarrow> int \<Rightarrow> string \<Rightarrow> (string \<times> json) list" where
  "defaults start_time end_time duration sol_file =
     [(''start'', JInt start_time), (''end'', JInt end_time), (''duration'', JInt duration),
      (''contract'', JString sol_file), (''tool'', JString ''mythril'')]"

text \<open>The value of a top-level field of a report file, if the file is one and has it.\<close>

fun report_field :: "string \<Rightarrow> file_content option \<Rightarrow> json option" where
  "report_field k (Some (JsonText (JObject kvs))) = map_of kvs k"
| "report_field k other = None"

text \<open>
  The files the corpus matcher is to select, as the specification words it: of every
  category directory, in the order of the listings, the files whose name ends in
  \<open>.sol\<close> and whose name without these four characters is a reference name.
\<close>

definition matched_files :: "string set \<Rightarrow> (string \<times> dir_entry) list \<Rightarrow> string list" where
  "matched_files names input_listing =
     concat (map (\<lambda>(category, entry).
        case entry of
          NotDir \<Rightarrow> []
        | Dir files \<Rightarrow>
            map (input_path_of category)
              (filter (\<lambda>f. endswith f ''.sol'' \<and> take (length f - 4) f \<in> names) files))
       input_listing)"

text \<open>The files of a run in the order the two loops reach them, each with its category.\<close>

definition batch_items :: "(string \<times> dir_entry) list \<Rightarrow> (string \<times> string) list" where
  "batch_items input_listing =
     concat (map (\<lambda>(category, entry).
        case entry of NotDir \<Rightarrow> [] | Dir files \<Rightarrow> map (Pair category) files)
       input_listing)"

text \<open>What the run holds for one contract: its two files and the exceptions reported for it.\<close>

definition view ::
  "string \<Rightarrow> state \<Rightarrow> file_content option \<times> file_content option \<times> py_exn set" where
  "view cn st =
     (out_files st (output_path_of cn), out_files st (raw_path_of cn),
      {e. (cn, e) \<in> set (errors st)})"

text \<open>
  The shape of the text \<open>json.dumps\<close> gives for a document: it is not empty, it begins
  as a JSON value begins (a brace, a bracket, a quote, a sign, a digit, or the first
  letter of \<open>true\<close>, \<open>false\<close>, \<open>null\<close>, \<open>NaN\<close>, \<open>Infinity\<close>) and ends as one ends.
\<close>

definition serialized_shape :: "string \<Rightarrow> bool" where
  \<open>serialized_shape s \<longleftrightarrow>
     s \<noteq> [] \<and> hd s \<in> set ''{["-0123456789tfnNI'' \<and> last s \<in> set ''}]"0123456789elNy''\<close>

section \<open>A concrete scenario\<close>

text \<open>
  The scenario of the specification: the reference name \<open>Reentrancy1\<close>, the file
  \<open>access_control/Reentrancy1.sol\<close>, an empty output directory and a model whose reply
  is given. \<open>scenario_loads\<close> lists what \<open>json.loads\<close> returns on the cleaned replies
  used below; \<open>not json at all\<close> is the one other text it is applied to.
\<close>

definition scenario_loads :: "string \<Rightarrow> py_exn + json" where
  \<open>scenario_loads s =
     (if s = ''{}'' then Inr (JObject [])
      else if s = ''[]'' then Inr (JArray [])
      else if s = ''{"contract":"X"}'' then Inr (JObject [(''contract'', JString ''X'')])
      else if s = ''{"analysis":{"success":true,"issues":[]}}''
        then Inr (JObject [(''analysis'',
               JObject [(''success'', JBool True), (''issues'', JArray [])])])
      else if s = ''["start","end","duration","contract","tool"]''
        then Inr (JArray [JString ''start'', JString ''end'', JString ''duration'',
               JString ''contract'', JString ''tool''])
      else Inl JSONDecodeError)\<close>

definition scenario_env :: "string \<Rightarrow> item_env" where
  "scenario_env text =
     \<lparr>source_text = Inr ''contract C {}'', start_clock = 100, end_clock = 103,
      reply = Inr text, json_write = NoFault, raw_write = NoFault\<rparr>"

definition scenario_ext :: "item_env \<Rightarrow> externals" where
  "scenario_ext env =
     \<lparr>json_loads = scenario_loads, SYSTEM_PROMPT = ''PROMPT'', item_world = (\<lambda>p. env)\<rparr>"

definition scenario_run :: "item_env \<Rightarrow> state" where
  "scenario_run env =
     process_file (scenario_ext env) {''Reentrancy1''} ''access_control'' ''Reentrancy1.sol''
       (start_state Map.empty)"

text \<open>
  A batch of three contracts \<open>A\<close>, \<open>B\<close> and \<open>C\<close> of one category: the world of \<open>A\<close> is
  given, the model answers \<open>{}\<close> for \<open>B\<close> and \<open>not json at all\<close> for \<open>C\<close>.
\<close>

definition batch_world :: "item_env \<Rightarrow> string \<Rightarrow> item_env" where
  "batch_world first p =
     (if p = input_path_of ''access_control'' ''A.sol'' then first
      else if p = input_path_of ''access_control'' ''B.sol'' then scenario_env ''{}''
      else scenario_env ''not json at all'')"

definition batch_ext :: "item_env \<Rightarrow> externals" where
  "batch_ext first =
     \<lparr>json_loads = scenario_loads, SYSTEM_PROMPT = ''PROMPT'', item_world = batch_world first\<rparr>"

definition batch_run :: "item_env \<Rightarrow> state" where
  "batch_run first =
     run_batch (batch_ext first) [(''A'', True), (''B'', True), (''C'', True)]
       [(''access_control'', Dir [''A.sol'', ''B.sol'', ''C.sol''])] (start_state Map.empty)"

section \<open>Filling a dict\<close>

lemma update_absent: "k \<notin> fst ` set al \<Longrightarrow> AList.update k v al = al @ [(k, v)]"
  by (induction al) auto

lemma ensure_field_step:
  assumes "k \<notin> fst ` set ds"
  shows "ensure_field k v (JObject (kvs @ missing kvs ds)) =
           Inr (JObject (kvs @ missing kvs (ds @ [(k, v)])))"
proof (cases "k \<in> fst ` set kvs")
  case True
  then show ?thesis by (auto simp: ensure_field_def missing_def)
next
  case False
  with assms have "k \<notin> fst ` set (kvs @ missing kvs ds)"
    by (auto simp: missing_def)
  then have "AList.update k v (kvs @ missing kvs ds) = (kvs @ missing kvs ds) @ [(k, v)]"
    by (rule update_absent)
  with False assms show ?thesis
    by (auto simp: ensure_field_def missing_def)
qed

lemma backfill_object:
  "backfill s e d f (JObject kvs) = Inr (JObject (kvs @ missing kvs (defaults s e d f)))"
proof -
  have 1: "ensure_field ''start'' (JInt s) (JObject kvs) =
             Inr (JObject (kvs @ missing kvs [(''start'', JInt s)]))"
    using ensure_field_step [of "''start''" "[]" "JInt s" kvs] by (simp add: missing_def)
  have 2: "ensure_field ''end'' (JInt e) (JObject (kvs @ missing kvs [(''start'', JInt s)])) =
             Inr (JObject (kvs @ missing kvs [(''start'', JInt s), (''end'', JInt e)]))"
    using ensure_field_step [of "''end''" "[(''start'', JInt s)]" "JInt e" kvs] by simp
  have 3: "ensure_field ''duration'' (JInt d)
             (JObject (kvs @ missing kvs [(''start'', JInt s), (''end'', JInt e)])) =
             Inr (JObject (kvs @ missing kvs
               [(''start'', JInt s), (''end'', JInt e), (''duration'', JInt d)]))"
    using ensure_field_step [of "''duration''" "[(''start'', JInt s), (''end'', JInt e)]" "JInt d" kvs]
    by simp
  have 4: "ensure_field ''contract'' (JString f)
             (JObject (kvs @ missing kvs
               [(''start'', JInt s), (''end'', JInt e), (''duration'', JInt d)])) =
             Inr (JObject (kvs @ missing kvs
               [(''start'', JInt s), (''end'', JInt e), (''duration'', JInt d),
                (''contract'', JString f)]))"
    using ensure_field_step [of "''contract''"
        "[(''start'', JInt s), (''end'', JInt e), (''duration'', JInt d)]" "JString f" kvs]
    by simp
  have 5: "ensure_field ''tool'' (JString ''mythril'')
             (JObject (kvs @ missing kvs
               [(''start'', JInt s), (''end'', JInt e), (''duration'', JInt d),
                (''contract'', JString f)])) =
             Inr (JObject (kvs @ missing kvs (defaults s e d f)))"
    using ensure_field_step [of "''tool''"
        "[(''start'', JInt s), (''end'', JInt e), (''duration'', JInt d),
          (''contract'', JString f)]" "JString ''mythril''" kvs]
    by (simp add: defaults_def)
  show ?thesis
    unfolding backfill_def by (simp only: 1 2 3 4 5 sum.case)
qed

lemma map_of_missing:
  "map_of kvs k = None \<Longrightarrow> map_of (missing kvs ds) k = map_of ds k"
  by (induction ds) (auto simp: missing_def map_of_eq_None_iff)

lemma endswith_sol: "endswith (contract_name @ ''.sol'') ''.sol''"
  by (simp add: endswith_def)

lemma process_file_matched:
  assumes "contract_name \<in> names" "out_files st (output_path_of contract_name) = None"
  shows "process_file ext names category (contract_name @ ''.sol'') st =
           process_item ext (contract_name @ ''.sol'') contract_name
             (input_path_of category (contract_name @ ''.sol'')) (output_path_of contract_name)
             (st\<lparr>found_count := found_count st + 1,
                 found := found st @ [input_path_of category (contract_name @ ''.sol'')]\<rparr>)"
  using assms by (simp add: process_file_def endswith_sol Let_def)

lemma process_item_report:
  assumes "source_text (item_world ext ip) = Inr contract_code"
    and "reply (item_world ext ip) = Inr text"
    and "json_loads ext (strip_fences text) = Inr (JObject kvs)"
    and "json_write (item_world ext ip) = NoFault"
  shows "process_item ext sol_file contract_name ip op st =
           st\<lparr>requests := requests st @ [(ip, build_prompt ext contract_code)],
              out_files := (out_files st)(op \<mapsto> JsonText (JObject (kvs @ missing kvs
                 (defaults (start_clock (item_world ext ip)) (end_clock (item_world ext ip))
                    (end_clock (item_world ext ip) - start_clock (item_world ext ip)) sol_file)))),
              processed_count := processed_count st + 1\<rparr>"
  using assms
  by (simp add: process_item_def try_item_def parse_and_save_def write_file_def backfill_object
      Let_def)


lemma persisted_report:
  assumes "contract_name \<in> names"
    and "out_files st (output_path_of contract_name) = None"
    and "source_text (item_world ext (input_path_of category (contract_name @ ''.sol''))) = Inr contract_code"
    and "reply (item_world ext (input_path_of category (contract_name @ ''.sol''))) = Inr text"
    and "json_loads ext (strip_fences text) = Inr (JObject kvs)"
    and "json_write (item_world ext (input_path_of category (contract_name @ ''.sol''))) = NoFault"
  shows "out_files (process_file ext names category (contract_name @ ''.sol'') st)
           (output_path_of contract_name) =
         Some (JsonText (JObject (kvs @ missing kvs
           (defaults
              (start_clock (item_world ext (input_path_of category (contract_name @ ''.sol''))))
              (end_clock (item_world ext (input_path_of category (contract_name @ ''.sol''))))
              (end_clock (item_world ext (input_path_of category (contract_name @ ''.sol'')))
                - start_clock (item_world ext (input_path_of category (contract_name @ ''.sol''))))
              (contract_name @ ''.sol'')))))"
  using assms(1,2)
  by (simp add: process_file_matched process_item_report [OF assms(3,4,5,6)])

lemmas scenario_simps = scenario_ext_def scenario_env_def scenario_loads_def start_state_def
  strip_fences_def strip_closer_def strip_def startswith_def endswith_def isspace_def

section \<open>The filled report\<close>

text \<open>
  Claim C7. When the reply of a requested contract parses to a dict and the report is
  written, the report holds the items of the parsed dict, unchanged and in their order,
  followed by those of \<open>start\<close>, \<open>end\<close>, \<open>duration\<close>, \<open>contract\<close> and \<open>tool\<close> whose
  key the parsed dict did not have, with the values the script knows: the two readings
  of the clock, their difference \<open>end - start\<close>, the file name and \<open>mythril\<close>. So a
  field the reply defines keeps its value, an absent one of the five is set, and no other
  field is touched.
\<close>

theorem backfill_without_overwrite:
  assumes "contract_name \<in> names"
    and "out_files st (output_path_of contract_name) = None"
    and "env = item_world ext (input_path_of category (contract_name @ ''.sol''))"
    and "source_text env = Inr contract_code"
    and "reply env = Inr text"
    and "json_loads ext (strip_fences text) = Inr (JObject kvs)"
    and "json_write env = NoFault"
  shows "out_files (process_file ext names category (contract_name @ ''.sol'') st)
           (output_path_of contract_name) =
         Some (JsonText (JObject (kvs @ filter (\<lambda>field. fst field \<notin> fst ` set kvs)
           [(''start'', JInt (start_clock env)),
            (''end'', JInt (end_clock env)),
            (''duration'', JInt (end_clock env - start_clock env)),
            (''contract'', JString (contract_name @ ''.sol'')),
            (''tool'', JString ''mythril'')])))"
  using persisted_report [of contract_name names st ext category contract_code "text" kvs] assms
  by (simp add: missing_def defaults_def)

theorem backfill_without_overwrite_witness:
  \<open>''Reentrancy1'' \<in> {''Reentrancy1''}
   \<and> out_files (start_state Map.empty) (output_path_of ''Reentrancy1'') = None
   \<and> source_text (scenario_env ''{"contract":"X"}'') = Inr ''contract C {}''
   \<and> reply (scenario_env ''{"contract":"X"}'') = Inr ''{"contract":"X"}''
   \<and> json_loads (scenario_ext (scenario_env ''{"contract":"X"}''))
        (strip_fences ''{"contract":"X"}'') = Inr (JObject [(''contract'', JString ''X'')])
   \<and> json_write (scenario_env ''{"contract":"X"}'') = NoFault
   \<and> out_files (process_file (scenario_ext (scenario_env ''{"contract":"X"}''))
          {''Reentrancy1''} ''access_control'' (''Reentrancy1'' @ ''.sol'')
          (start_state Map.empty)) (output_path_of ''Reentrancy1'') =
       Some (JsonText (JObject [(''contract'', JString ''X''), (''start'', JInt 100),
         (''end'', JInt 103), (''duration'', JInt 3), (''tool'', JString ''mythril'')]))\<close>
  using backfill_without_overwrite [of "''Reentrancy1''" "{''Reentrancy1''}"
      "start_state Map.empty" \<open>scenario_env ''{"contract":"X"}''\<close>
      \<open>scenario_ext (scenario_env ''{"contract":"X"}'')\<close> "''access_control''"
      "''contract C {}''" \<open>''{"contract":"X"}''\<close> "[(''contract'', JString ''X'')]"]
  by (simp add: scenario_simps)

lemmas scenario_run_simps = scenario_run_def scenario_simps
  process_file_def process_item_def try_item_def parse_and_save_def save_raw_def write_file_def
  output_path_of_def raw_path_of_def input_path_of_def path_join_def OUTPUT_DIR_def INPUT_DIR_def
  backfill_def ensure_field_def build_prompt_def

lemma map_add_filled:
  "(map_of (missing kvs ds) ++ map_of kvs) k =
     (case map_of kvs k of Some v \<Rightarrow> Some v | None \<Rightarrow> map_of ds k)"
  by (cases "map_of kvs k") (simp_all add: map_of_missing map_add_def)

text \<open>
  Claim C1, as the script has it. When the parsed reply is a dict without a \<open>contract\<close>
  field and the report is written, the \<open>contract\<close> field of the report is the name of the
  source file with its \<open>.sol\<close> extension, as the \<open>filename\<close> placeholder of the prompt's
  output format asks; it is not the identifier.
\<close>

theorem contract_backfilled_with_file_name:
  assumes "contract_name \<in> names"
    and "out_files st (output_path_of contract_name) = None"
    and "env = item_world ext (input_path_of category (contract_name @ ''.sol''))"
    and "source_text env = Inr contract_code"
    and "reply env = Inr text"
    and "json_loads ext (strip_fences text) = Inr (JObject kvs)"
    and "''contract'' \<notin> fst ` set kvs"
    and "json_write env = NoFault"
  shows "report_field ''contract''
           (out_files (process_file ext names category (contract_name @ ''.sol'') st)
              (output_path_of contract_name)) =
         Some (JString (contract_name @ ''.sol''))"
proof -
  have absent: "map_of kvs ''contract'' = None"
    using assms(7) by (simp add: map_of_eq_None_iff)
  show ?thesis
    using persisted_report [of contract_name names st ext category contract_code "text" kvs] assms(1-6,8)
    by (simp add: map_add_filled absent defaults_def)
qed

theorem contract_backfilled_with_file_name_witness:
  \<open>''Reentrancy1'' \<in> {''Reentrancy1''}
   \<and> out_files (start_state Map.empty) (output_path_of ''Reentrancy1'') = None
   \<and> source_text (scenario_env ''{}'') = Inr ''contract C {}''
   \<and> reply (scenario_env ''{}'') = Inr ''{}''
   \<and> json_loads (scenario_ext (scenario_env ''{}'')) (strip_fences ''{}'') = Inr (JObject [])
   \<and> ''contract'' \<notin> fst ` set ([] :: (string \<times> json) list)
   \<and> json_write (scenario_env ''{}'') = NoFault
   \<and> report_field ''contract''
        (out_files (process_file (scenario_ext (scenario_env ''{}''))
          {''Reentrancy1''} ''access_control'' (''Reentrancy1'' @ ''.sol'')
          (start_state Map.empty)) (output_path_of ''Reentrancy1'')) =
       Some (JString ''Reentrancy1.sol'')\<close>
  using contract_backfilled_with_file_name [of "''Reentrancy1''" "{''Reentrancy1''}"
      "start_state Map.empty" "scenario_env ''{}''"
      "scenario_ext (scenario_env ''{}'')" "''access_control''"
      "''contract C {}''" "''{}''" "[]"]
  by (simp add: scenario_simps)

text \<open>
  Claim C1 as stated fails in the scenario: for \<open>Reentrancy1.sol\<close> and the reply \<open>{}\<close>
  the report's \<open>contract\<close> field is \<open>Reentrancy1.sol\<close>, not \<open>Reentrancy1\<close>.
\<close>

theorem contract_is_not_identifier:
  "report_field ''contract''
     (out_files (scenario_run (scenario_env ''{}'')) (output_path_of ''Reentrancy1'')) =
   Some (JString ''Reentrancy1.sol'')
   \<and> report_field ''contract''
     (out_files (scenario_run (scenario_env ''{}'')) (output_path_of ''Reentrancy1'')) \<noteq>
   Some (JString ''Reentrancy1'')"
  by (simp add: scenario_run_simps)

text \<open>
  Claim C4, as the script has it. When the parsed reply is a dict and the report is
  written, the five top-level fields \<open>start\<close>, \<open>end\<close>, \<open>duration\<close>, \<open>contract\<close> and
  \<open>tool\<close> are present in it; every other field, \<open>analysis\<close> with its nested fields
  included, is in the report exactly when the reply had it, with the reply's value.
\<close>

theorem top_level_fields_present:
  assumes "contract_name \<in> names"
    and "out_files st (output_path_of contract_name) = None"
    and "env = item_world ext (input_path_of category (contract_name @ ''.sol''))"
    and "source_text env = Inr contract_code"
    and "reply env = Inr text"
    and "json_loads ext (strip_fences text) = Inr (JObject kvs)"
    and "json_write env = NoFault"
    and "report = out_files (process_file ext names category (contract_name @ ''.sol'') st)
           (output_path_of contract_name)"
  shows "report_field ''start'' report \<noteq> None \<and> report_field ''end'' report \<noteq> None
       \<and> report_field ''duration'' report \<noteq> None \<and> report_field ''contract'' report \<noteq> None
       \<and> report_field ''tool'' report \<noteq> None
       \<and> (\<forall>k. k \<notin> {''start'', ''end'', ''duration'', ''contract'', ''tool''}
            \<longrightarrow> report_field k report = map_of kvs k)"
proof -
  have "report = Some (JsonText (JObject (kvs @ missing kvs
           (defaults (start_clock env) (end_clock env) (end_clock env - start_clock env)
              (contract_name @ ''.sol'')))))"
    using persisted_report [of contract_name names st ext category contract_code "text" kvs] assms
    by simp
  then show ?thesis
    by (simp add: map_add_filled defaults_def split: option.split)
qed

theorem top_level_fields_present_witness:
  \<open>''Reentrancy1'' \<in> {''Reentrancy1''}
   \<and> out_files (start_state Map.empty) (output_path_of ''Reentrancy1'') = None
   \<and> source_text (scenario_env ''{}'') = Inr ''contract C {}''
   \<and> reply (scenario_env ''{}'') = Inr ''{}''
   \<and> json_loads (scenario_ext (scenario_env ''{}'')) (strip_fences ''{}'') = Inr (JObject [])
   \<and> json_write (scenario_env ''{}'') = NoFault
   \<and> report_field ''tool'' (out_files (process_file (scenario_ext (scenario_env ''{}''))
          {''Reentrancy1''} ''access_control'' (''Reentrancy1'' @ ''.sol'')
          (start_state Map.empty)) (output_path_of ''Reentrancy1'')) \<noteq> None
   \<and> report_field ''analysis'' (out_files (process_file (scenario_ext (scenario_env ''{}''))
          {''Reentrancy1''} ''access_control'' (''Reentrancy1'' @ ''.sol'')
          (start_state Map.empty)) (output_path_of ''Reentrancy1'')) = None\<close>
  using top_level_fields_present [of "''Reentrancy1''" "{''Reentrancy1''}"
      "start_state Map.empty" "scenario_env ''{}''"
      "scenario_ext (scenario_env ''{}'')" "''access_control''"
      "''contract C {}''" "''{}''" "[]", OF _ _ _ _ _ _ _ refl]
  by (simp add: scenario_simps)

text \<open>
  Claim C4 as stated fails in the scenario: for the reply \<open>{}\<close> the report is written
  with the five top-level fields and has no \<open>analysis\<close> field.
\<close>

theorem analysis_not_backfilled:
  "out_files (scenario_run (scenario_env ''{}'')) (output_path_of ''Reentrancy1'') =
     Some (JsonText (JObject [(''start'', JInt 100), (''end'', JInt 103), (''duration'', JInt 3),
       (''contract'', JString ''Reentrancy1.sol''), (''tool'', JString ''mythril'')]))
   \<and> report_field ''analysis''
     (out_files (scenario_run (scenario_env ''{}'')) (output_path_of ''Reentrancy1'')) = None"
  by (simp add: scenario_run_simps)

section \<open>The response clean-up, proved\<close>

lemma dropWhile_padded:
  assumes "y \<noteq> []" "\<not> P (hd y)" "\<forall>c\<in>set a. P c"
  shows "dropWhile P (a @ y) = y"
  using assms by (cases y) simp_all

lemma strip_padded:
  assumes "x \<noteq> []" "\<not> isspace (hd x)" "\<not> isspace (last x)"
    and "\<forall>c\<in>set a. isspace c" "\<forall>c\<in>set b. isspace c"
  shows "strip (a @ x @ b) = x"
proof -
  have front: "dropWhile isspace (a @ x @ b) = x @ b"
    using dropWhile_padded [of "x @ b" isspace a] assms(1,2,4) by simp
  have rear: "dropWhile isspace (rev b @ rev x) = rev x"
    using dropWhile_padded [of "rev x" isspace "rev b"] assms(1,3,5) by (simp add: hd_rev)
  show ?thesis
    by (simp add: strip_def front rear)
qed

lemma backtick_not_space: "\<not> isspace CHR ''`''"
  by (simp add: isspace_def)

lemma first_char_facts:
  \<open>c \<in> set ''{["-0123456789tfnNI'' \<Longrightarrow> \<not> isspace c \<and> c \<noteq> CHR ''`'' \<and> c \<noteq> CHR ''j''\<close>
  by (auto simp: isspace_def)

lemma last_char_facts:
  \<open>c \<in> set ''}]"0123456789elNy'' \<Longrightarrow> \<not> isspace c\<close>
  by (auto simp: isspace_def)

lemma shape_facts:
  assumes "serialized_shape s"
  shows "s \<noteq> []" "\<not> isspace (hd s)" "\<not> isspace (last s)" "hd s \<noteq> CHR ''`''" "hd s \<noteq> CHR ''j''"
proof -
  from assms have 1: "s \<noteq> []"
    and 2: \<open>hd s \<in> set ''{["-0123456789tfnNI''\<close>
    and 3: \<open>last s \<in> set ''}]"0123456789elNy''\<close>
    unfolding serialized_shape_def by blast+
  show "s \<noteq> []" by (rule 1)
  show "\<not> isspace (hd s)" "hd s \<noteq> CHR ''`''" "hd s \<noteq> CHR ''j''"
    using first_char_facts [OF 2] by blast+
  show "\<not> isspace (last s)"
    using last_char_facts [OF 3] by blast
qed

lemma not_fence_start:
  assumes "s \<noteq> []" "hd s \<noteq> CHR ''`''" "\<forall>c\<in>set a. isspace c"
  shows "\<not> startswith (a @ s @ r) ''```''"
proof (cases a)
  case Nil
  with assms(1,2) show ?thesis by (cases s) (simp_all add: startswith_def)
next
  case (Cons c cs)
  with assms(3) have "isspace c" by simp
  then have "c \<noteq> CHR ''`''" using backtick_not_space by auto
  with Cons show ?thesis by (simp add: startswith_def)
qed

lemma not_tagged_start:
  assumes "s \<noteq> []" "hd s \<noteq> CHR ''j''" "\<forall>c\<in>set a. isspace c"
  shows "\<not> startswith (''```'' @ a @ s @ r) ''```json''"
proof (cases a)
  case Nil
  with assms(1,2) show ?thesis by (cases s) (simp_all add: startswith_def)
next
  case (Cons c cs)
  with assms(3) have "isspace c" by simp
  then have "c \<noteq> CHR ''j''" by (auto simp: isspace_def)
  with Cons show ?thesis by (simp add: startswith_def)
qed

lemma strip_closer_fence: "strip_closer (x @ ''```'') = x"
  by (simp add: strip_closer_def endswith_def)

lemma strip_fences_wrapped:
  assumes "serialized_shape s"
    and "opener = ''```json'' \<or> opener = ''```''"
    and "\<forall>c\<in>set (ws0 @ ws1 @ ws2 @ ws3). isspace c"
  shows "strip_fences (ws0 @ opener @ ws1 @ s @ ws2 @ ''```'' @ ws3) = s"
proof -
  note sh = shape_facts [OF assms(1)]
  have ws: "\<forall>c\<in>set ws0. isspace c" "\<forall>c\<in>set ws1. isspace c"
    "\<forall>c\<in>set ws2. isspace c" "\<forall>c\<in>set ws3. isspace c"
    using assms(3) by auto
  let ?body = "ws1 @ s @ ws2 @ ''```''"
  have op: "opener \<noteq> []" "hd opener = CHR ''`''" using assms(2) by auto
  have trimmed: "strip (ws0 @ opener @ ws1 @ s @ ws2 @ ''```'' @ ws3) = opener @ ?body"
    using strip_padded [of "opener @ ?body" ws0 ws3] ws(1,4) op backtick_not_space
    by simp
  have nofence: "\<not> startswith ?body ''```''"
    using not_fence_start [of s ws1 "ws2 @ ''```''"] sh ws(2) by simp
  have inner: "strip (ws1 @ s @ ws2) = s"
    using strip_padded [of s ws1 ws2] sh ws(2,3) by simp
  have closer: "strip_closer ?body = ws1 @ s @ ws2"
    using strip_closer_fence [of "ws1 @ s @ ws2"] by simp
  from assms(2) show ?thesis
  proof
    assume tagged: "opener = ''```json''"
    have "startswith (opener @ ?body) ''```json''"
      by (simp add: tagged startswith_def)
    moreover have "drop 7 (opener @ ?body) = ?body"
      by (simp add: tagged)
    ultimately show ?thesis
      unfolding strip_fences_def trimmed Let_def
      by (simp only: if_True nofence if_False closer inner)
  next
    assume bare: "opener = ''```''"
    have "\<not> startswith (opener @ ?body) ''```json''"
      using not_tagged_start [of s ws1 "ws2 @ ''```''"] sh ws(2) by (simp add: bare)
    moreover have "startswith (opener @ ?body) ''```''"
      by (simp add: bare startswith_def)
    moreover have "drop 3 (opener @ ?body) = ?body"
      by (simp add: bare)
    ultimately show ?thesis
      unfolding strip_fences_def trimmed Let_def
      by (simp only: if_True if_False closer inner)
  qed
qed


lemma ensure_field_raises: "ensure_field k v d = Inl e \<Longrightarrow> e = TypeError"
  by (cases d) (auto simp: ensure_field_def split: if_splits)

lemma backfill_raises: "backfill s e d f v = Inl x \<Longrightarrow> x = TypeError"
  unfolding backfill_def
  by (auto split: sum.splits dest: ensure_field_raises)

lemma output_path_not_raw_path: "output_path_of a \<noteq> raw_path_of b"
proof
  assume "output_path_of a = raw_path_of b"
  then have "a @ ''.json'' = b @ ''_raw.txt''"
    by (simp add: output_path_of_def raw_path_of_def path_join_def)
  then have "last (a @ ''.json'') = last (b @ ''_raw.txt'')" by simp
  then show False by simp
qed

lemma output_path_inject [simp]: "output_path_of a = output_path_of b \<longleftrightarrow> a = b"
  by (simp add: output_path_of_def path_join_def)

lemma raw_path_inject [simp]: "raw_path_of a = raw_path_of b \<longleftrightarrow> a = b"
  by (simp add: raw_path_of_def path_join_def)

lemma parse_and_save_parsed:
  assumes "json_loads ext output = Inr d"
    and "parse_and_save ext env s e dur sf op output st = (st', r)"
  shows "r \<noteq> Some JSONDecodeError \<and> (\<forall>p. p \<noteq> op \<longrightarrow> out_files st' p = out_files st p)"
  using assms
  by (auto simp: parse_and_save_def write_file_def
      split: sum.splits write_fault.splits dest: backfill_raises)

lemma process_item_parsed_raw_untouched:
  assumes "reply (item_world ext ip) = Inr text"
    and "json_loads ext (strip_fences text) = Inr d"
  shows "out_files (process_item ext sf cn ip (output_path_of cn) st) (raw_path_of cn) =
           out_files st (raw_path_of cn)"
proof (cases "source_text (item_world ext ip)")
  case (Inl e)
  then show ?thesis by (simp add: process_item_def try_item_def)
next
  case (Inr code)
  obtain st' r where ps: "parse_and_save ext (item_world ext ip) (start_clock (item_world ext ip))
      (end_clock (item_world ext ip))
      (end_clock (item_world ext ip) - start_clock (item_world ext ip)) sf (output_path_of cn)
      (strip_fences text) (st\<lparr>requests := requests st @ [(ip, build_prompt ext code)]\<rparr>) = (st', r)"
    by (cases "parse_and_save ext (item_world ext ip) (start_clock (item_world ext ip))
      (end_clock (item_world ext ip))
      (end_clock (item_world ext ip) - start_clock (item_world ext ip)) sf (output_path_of cn)
      (strip_fences text) (st\<lparr>requests := requests st @ [(ip, build_prompt ext code)]\<rparr>)")
  from parse_and_save_parsed [OF assms(2) ps]
  have "r \<noteq> Some JSONDecodeError" and "out_files st' (raw_path_of cn) = out_files st (raw_path_of cn)"
    using output_path_not_raw_path [of cn cn] by auto
  then show ?thesis
    using Inr assms(1) ps
    by (cases r) (simp_all add: process_item_def try_item_def Let_def)
qed

lemma process_item_saved:
  assumes "source_text (item_world ext ip) = Inr contract_code"
    and "reply (item_world ext ip) = Inr w"
    and "json_loads ext (strip_fences w) = Inr v"
    and "backfill (start_clock (item_world ext ip)) (end_clock (item_world ext ip))
           (end_clock (item_world ext ip) - start_clock (item_world ext ip)) sf v = Inr d"
    and "json_write (item_world ext ip) = NoFault"
  shows "process_item ext sf cn ip op st =
           st\<lparr>requests := requests st @ [(ip, build_prompt ext contract_code)],
              out_files := (out_files st)(op \<mapsto> JsonText d),
              processed_count := processed_count st + 1\<rparr>"
  using assms
  by (simp add: process_item_def try_item_def parse_and_save_def write_file_def Let_def)

lemma process_item_fill_raises:
  assumes "source_text (item_world ext ip) = Inr contract_code"
    and "reply (item_world ext ip) = Inr w"
    and "json_loads ext (strip_fences w) = Inr v"
    and "backfill (start_clock (item_world ext ip)) (end_clock (item_world ext ip))
           (end_clock (item_world ext ip) - start_clock (item_world ext ip)) sf v = Inl x"
  shows "process_item ext sf cn ip op st =
           st\<lparr>requests := requests st @ [(ip, build_prompt ext contract_code)],
              errors := errors st @ [(cn, x)]\<rparr>"
proof -
  from assms(4) have "x = TypeError" by (rule backfill_raises)
  with assms show ?thesis
    by (simp add: process_item_def try_item_def parse_and_save_def Let_def)
qed

text \<open>
  Claim C6. Let \<open>s\<close> be the serialized text of a document \<open>D\<close>: a text of the shape
  above that \<open>json.loads\<close> parses to \<open>D\<close>. Wrap it in a fenced block: the opener
  \<open>```json\<close> or \<open>```\<close>, the text, the closing fence, with any whitespace (line breaks
  included) around the block and between its parts, and let this be the reply of the
  model for a selected contract. Then the clean-up returns \<open>s\<close> itself and the parse of
  the cleaned text gives \<open>D\<close>, and the run goes on with \<open>D\<close>: the raw fallback file is
  left as it was; once the source is read, the run ends in the state in which the report
  holds the filled \<open>D\<close> and the contract is counted as processed (for a dict \<open>D\<close>: its
  items followed by the absent ones of the five fields), when the write goes through;
  and when the fill of \<open>D\<close> raises, that exception is what the handler reports.
\<close>

theorem fence_round_trip:
  assumes "json_loads ext s = Inr D"
    and "serialized_shape s"
    and "opener = ''```json'' \<or> opener = ''```''"
    and "list_all isspace (ws0 @ ws1 @ ws2 @ ws3)"
    and "w = ws0 @ opener @ ws1 @ s @ ws2 @ ''```'' @ ws3"
    and "contract_name \<in> names"
    and "out_files st (output_path_of contract_name) = None"
    and "env = item_world ext (input_path_of category (contract_name @ ''.sol''))"
    and "reply env = Inr w"
    and "filled = backfill (start_clock env) (end_clock env) (end_clock env - start_clock env)
           (contract_name @ ''.sol'') D"
    and "st1 = st\<lparr>found_count := found_count st + 1,
                   found := found st @ [input_path_of category (contract_name @ ''.sol'')]\<rparr>"
  shows "strip_fences w = s \<and> json_loads ext (strip_fences w) = Inr D
       \<and> out_files (process_file ext names category (contract_name @ ''.sol'') st)
           (raw_path_of contract_name) = out_files st (raw_path_of contract_name)
       \<and> (source_text env = Inr contract_code \<and> filled = Inr d \<and> json_write env = NoFault \<longrightarrow>
            process_file ext names category (contract_name @ ''.sol'') st =
              st1\<lparr>requests := requests st @
                     [(input_path_of category (contract_name @ ''.sol''),
                       build_prompt ext contract_code)],
                  out_files := (out_files st)(output_path_of contract_name \<mapsto> JsonText d),
                  processed_count := processed_count st + 1\<rparr>)
       \<and> (source_text env = Inr contract_code \<and> D = JObject kvs \<and> json_write env = NoFault \<longrightarrow>
            out_files (process_file ext names category (contract_name @ ''.sol'') st)
              (output_path_of contract_name) =
            Some (JsonText (JObject (kvs @ filter (\<lambda>field. fst field \<notin> fst ` set kvs)
              [(''start'', JInt (start_clock env)),
               (''end'', JInt (end_clock env)),
               (''duration'', JInt (end_clock env - start_clock env)),
               (''contract'', JString (contract_name @ ''.sol'')),
               (''tool'', JString ''mythril'')]))))
       \<and> (source_text env = Inr contract_code \<and> filled = Inl x \<longrightarrow>
            process_file ext names category (contract_name @ ''.sol'') st =
              st1\<lparr>requests := requests st @
                     [(input_path_of category (contract_name @ ''.sol''),
                       build_prompt ext contract_code)],
                  errors := errors st @ [(contract_name, x)]\<rparr>)"
proof -
  let ?sf = "contract_name @ ''.sol''"
  let ?ip = "input_path_of category ?sf"
  have "\<forall>c\<in>set (ws0 @ ws1 @ ws2 @ ws3). isspace c"
    using assms(4) by (simp only: list_all_iff)
  with assms(2,3) have clean: "strip_fences w = s"
    unfolding assms(5) by (rule strip_fences_wrapped)
  then have parsed: "json_loads ext (strip_fences w) = Inr D"
    using assms(1) by simp
  have rep: "reply (item_world ext ?ip) = Inr w"
    using assms(8,9) by simp
  have run: "process_file ext names category ?sf st =
      process_item ext ?sf contract_name ?ip (output_path_of contract_name) st1"
    unfolding assms(11) using assms(6,7) by (rule process_file_matched)
  have raw: "out_files (process_file ext names category ?sf st) (raw_path_of contract_name) =
      out_files st (raw_path_of contract_name)"
    unfolding run using process_item_parsed_raw_untouched [OF rep parsed, of ?sf contract_name st1]
    by (simp add: assms(11))
  have saved: "source_text env = Inr contract_code \<and> filled = Inr d \<and> json_write env = NoFault \<longrightarrow>
      process_file ext names category ?sf st =
        st1\<lparr>requests := requests st @ [(?ip, build_prompt ext contract_code)],
            out_files := (out_files st)(output_path_of contract_name \<mapsto> JsonText d),
            processed_count := processed_count st + 1\<rparr>"
  proof
    assume a: "source_text env = Inr contract_code \<and> filled = Inr d \<and> json_write env = NoFault"
    then have src: "source_text (item_world ext ?ip) = Inr contract_code"
      and fill: "backfill (start_clock (item_world ext ?ip)) (end_clock (item_world ext ?ip))
           (end_clock (item_world ext ?ip) - start_clock (item_world ext ?ip)) ?sf D = Inr d"
      and wr: "json_write (item_world ext ?ip) = NoFault"
      using assms(8,10) by auto
    have "process_item ext ?sf contract_name ?ip (output_path_of contract_name) st1 =
        st1\<lparr>requests := requests st1 @ [(?ip, build_prompt ext contract_code)],
            out_files := (out_files st1)(output_path_of contract_name \<mapsto> JsonText d),
            processed_count := processed_count st1 + 1\<rparr>"
      by (rule process_item_saved [OF src rep parsed fill wr])
    then show "process_file ext names category ?sf st =
        st1\<lparr>requests := requests st @ [(?ip, build_prompt ext contract_code)],
            out_files := (out_files st)(output_path_of contract_name \<mapsto> JsonText d),
            processed_count := processed_count st + 1\<rparr>"
      unfolding run by (simp add: assms(11))
  qed
  have object: "source_text env = Inr contract_code \<and> D = JObject kvs \<and> json_write env = NoFault \<longrightarrow>
      out_files (process_file ext names category ?sf st) (output_path_of contract_name) =
      Some (JsonText (JObject (kvs @ filter (\<lambda>field. fst field \<notin> fst ` set kvs)
        [(''start'', JInt (start_clock env)),
         (''end'', JInt (end_clock env)),
         (''duration'', JInt (end_clock env - start_clock env)),
         (''contract'', JString (contract_name @ ''.sol'')),
         (''tool'', JString ''mythril'')])))"
  proof
    assume a: "source_text env = Inr contract_code \<and> D = JObject kvs \<and> json_write env = NoFault"
    with parsed have "json_loads ext (strip_fences w) = Inr (JObject kvs)" by simp
    from persisted_report [OF assms(6,7) _ rep this, of contract_code] a assms(8)
    show "out_files (process_file ext names category ?sf st) (output_path_of contract_name) =
      Some (JsonText (JObject (kvs @ filter (\<lambda>field. fst field \<notin> fst ` set kvs)
        [(''start'', JInt (start_clock env)),
         (''end'', JInt (end_clock env)),
         (''duration'', JInt (end_clock env - start_clock env)),
         (''contract'', JString (contract_name @ ''.sol'')),
         (''tool'', JString ''mythril'')])))"
      by (simp add: missing_def defaults_def)
  qed
  have refused: "source_text env = Inr contract_code \<and> filled = Inl x \<longrightarrow>
      process_file ext names category ?sf st =
        st1\<lparr>requests := requests st @ [(?ip, build_prompt ext contract_code)],
            errors := errors st @ [(contract_name, x)]\<rparr>"
  proof
    assume a: "source_text env = Inr contract_code \<and> filled = Inl x"
    then have src: "source_text (item_world ext ?ip) = Inr contract_code"
      and fill: "backfill (start_clock (item_world ext ?ip)) (end_clock (item_world ext ?ip))
           (end_clock (item_world ext ?ip) - start_clock (item_world ext ?ip)) ?sf D = Inl x"
      using assms(8,10) by auto
    have "process_item ext ?sf contract_name ?ip (output_path_of contract_name) st1 =
        st1\<lparr>requests := requests st1 @ [(?ip, build_prompt ext contract_code)],
            errors := errors st1 @ [(contract_name, x)]\<rparr>"
      by (rule process_item_fill_raises [OF src rep parsed fill])
    then show "process_file ext names category ?sf st =
        st1\<lparr>requests := requests st @ [(?ip, build_prompt ext contract_code)],
            errors := errors st @ [(contract_name, x)]\<rparr>"
      unfolding run by (simp add: assms(11))
  qed
  from clean parsed raw saved object refused show ?thesis by (intro conjI)
qed


theorem fence_round_trip_witness:
  \<open>json_loads (scenario_ext (scenario_env
       (''```json'' @ [CHR 0x0A] @ ''{"analysis":{"success":true,"issues":[]}}'' @ [CHR 0x0A] @ ''```'')))
     ''{"analysis":{"success":true,"issues":[]}}'' =
     Inr (JObject [(''analysis'', JObject [(''success'', JBool True), (''issues'', JArray [])])])
   \<and> serialized_shape ''{"analysis":{"success":true,"issues":[]}}''
   \<and> list_all isspace ([] @ [CHR 0x0A] @ [CHR 0x0A] @ [])
   \<and> ''Reentrancy1'' \<in> {''Reentrancy1''}
   \<and> out_files (start_state Map.empty) (output_path_of ''Reentrancy1'') = None
   \<and> strip_fences
        (''```json'' @ [CHR 0x0A] @ ''{"analysis":{"success":true,"issues":[]}}'' @ [CHR 0x0A] @ ''```'') =
       ''{"analysis":{"success":true,"issues":[]}}''
   \<and> out_files (process_file (scenario_ext (scenario_env
         (''```json'' @ [CHR 0x0A] @ ''{"analysis":{"success":true,"issues":[]}}'' @ [CHR 0x0A] @ ''```'')))
         {''Reentrancy1''} ''access_control'' (''Reentrancy1'' @ ''.sol'') (start_state Map.empty))
       (raw_path_of ''Reentrancy1'') = None
   \<and> out_files (process_file (scenario_ext (scenario_env
         (''```json'' @ [CHR 0x0A] @ ''{"analysis":{"success":true,"issues":[]}}'' @ [CHR 0x0A] @ ''```'')))
         {''Reentrancy1''} ''access_control'' (''Reentrancy1'' @ ''.sol'') (start_state Map.empty))
       (output_path_of ''Reentrancy1'') =
     Some (JsonText (JObject [(''analysis'',
         JObject [(''success'', JBool True), (''issues'', JArray [])]),
       (''start'', JInt 100), (''end'', JInt 103), (''duration'', JInt 3),
       (''contract'', JString ''Reentrancy1.sol''), (''tool'', JString ''mythril'')]))\<close>
proof -
  let ?s = \<open>''{"analysis":{"success":true,"issues":[]}}''\<close>
  let ?w = "''```json'' @ [CHR 0x0A] @ ?s @ [CHR 0x0A] @ ''```''"
  let ?D = "JObject [(''analysis'', JObject [(''success'', JBool True), (''issues'', JArray [])])]"
  let ?env = "scenario_env ?w"
  let ?ext = "scenario_ext ?env"
  let ?st = "start_state Map.empty"
  let ?run = "process_file ?ext {''Reentrancy1''} ''access_control'' (''Reentrancy1'' @ ''.sol'') ?st"
  have h1: "json_loads ?ext ?s = Inr ?D"
    by (simp add: scenario_ext_def scenario_loads_def)
  have h2: "serialized_shape ?s"
    by (simp add: serialized_shape_def)
  have h3: "''```json'' = ''```json'' \<or> ''```json'' = ''```''"
    by simp
  have h4: "list_all isspace ([] @ [CHR 0x0A] @ [CHR 0x0A] @ [])"
    by (simp add: isspace_def)
  have h5: "?w = [] @ ''```json'' @ [CHR 0x0A] @ ?s @ [CHR 0x0A] @ ''```'' @ []"
    by simp
  have h6: "''Reentrancy1'' \<in> {''Reentrancy1''}"
    by simp
  have h7: "out_files ?st (output_path_of ''Reentrancy1'') = None"
    by (simp add: start_state_def)
  have h8: "?env = item_world ?ext (input_path_of ''access_control'' (''Reentrancy1'' @ ''.sol''))"
    by (simp add: scenario_ext_def)
  have h9: "reply ?env = Inr ?w"
    by (simp add: scenario_env_def)
  note inst = fence_round_trip [OF h1 h2 h3 h4 h5 h6 h7 h8 h9 refl refl,
      where contract_code = "''contract C {}''"
        and kvs = "[(''analysis'', JObject [(''success'', JBool True), (''issues'', JArray [])])]"]
  from inst have clean: "strip_fences ?w = ?s"
    by (rule conjunct1)
  from inst have raw: "out_files ?run (raw_path_of ''Reentrancy1'') =
      out_files ?st (raw_path_of ''Reentrancy1'')"
    by (rule conjunct2 [THEN conjunct2, THEN conjunct1])
  from inst have "source_text ?env = Inr ''contract C {}'' \<and> ?D = ?D \<and> json_write ?env = NoFault \<longrightarrow>
      out_files ?run (output_path_of ''Reentrancy1'') =
      Some (JsonText (JObject ([(''analysis'', JObject [(''success'', JBool True), (''issues'', JArray [])])]
        @ filter (\<lambda>field. fst field \<notin>
              fst ` set [(''analysis'', JObject [(''success'', JBool True), (''issues'', JArray [])])])
        [(''start'', JInt (start_clock ?env)),
         (''end'', JInt (end_clock ?env)),
         (''duration'', JInt (end_clock ?env - start_clock ?env)),
         (''contract'', JString (''Reentrancy1'' @ ''.sol'')),
         (''tool'', JString ''mythril'')])))"
    by (rule conjunct2 [THEN conjunct2, THEN conjunct2, THEN conjunct2, THEN conjunct1])
  then have report: "out_files ?run (output_path_of ''Reentrancy1'') =
      Some (JsonText (JObject [(''analysis'',
         JObject [(''success'', JBool True), (''issues'', JArray [])]),
       (''start'', JInt 100), (''end'', JInt 103), (''duration'', JInt 3),
       (''contract'', JString ''Reentrancy1.sol''), (''tool'', JString ''mythril'')]))"
    by (simp add: scenario_env_def)
  from h1 h2 h4 h6 h7 clean raw report show ?thesis
    by (simp add: start_state_def)
qed


text \<open>
  Claim C5, as the script has it. The two opener tests are two \<open>if\<close> statements in
  sequence: the bare opener is looked for in the text the first test leaves, whether or
  not that test removed the tagged opener. When the trimmed text begins with \<open>```json\<close>
  the tagged opener is removed, and a bare fence that follows it immediately is removed
  as well; when it does not, a bare opener at its front is removed.
\<close>

theorem bare_opener_tested_after_tagged:
  "(startswith (strip text) ''```json'' \<longrightarrow>
      strip_fences text =
        strip (strip_closer (if startswith (drop 7 (strip text)) ''```''
                             then drop 3 (drop 7 (strip text)) else drop 7 (strip text))))
   \<and> (\<not> startswith (strip text) ''```json'' \<longrightarrow>
      strip_fences text =
        strip (strip_closer (if startswith (strip text) ''```''
                             then drop 3 (strip text) else strip text)))"
  by (simp add: strip_fences_def Let_def)

theorem bare_opener_tested_after_tagged_witness:
  "startswith (strip ''```json```{}'') ''```json''
   \<and> startswith (drop 7 (strip ''```json```{}'')) ''```''
   \<and> strip_fences ''```json```{}'' = ''{}''
   \<and> \<not> startswith (strip ''```{}```'') ''```json''
   \<and> strip_fences ''```{}```'' = ''{}''"
  using bare_opener_tested_after_tagged [of "''```json```{}''"]
    bare_opener_tested_after_tagged [of "''```{}```''"]
  by (simp add: strip_def strip_closer_def startswith_def endswith_def isspace_def)

text \<open>
  Claim C5 as stated fails on a reply that begins with \<open>```json\<close> followed at once by a
  bare fence: both are removed, where the claim leaves the bare fence in place.
\<close>

theorem both_openers_removed:
  "strip_fences ''```json```{}'' = ''{}'' \<and> strip_fences ''```json```{}'' \<noteq> ''```{}''"
  by (simp add: strip_fences_def strip_def strip_closer_def startswith_def endswith_def
      isspace_def)

section \<open>A reply that is not a dict\<close>

lemma ensure_field_non_object:
  assumes "\<And>kvs. d \<noteq> JObject kvs"
  shows "ensure_field k v d = (if py_contains k d = Inr True then Inr d else Inl TypeError)"
  using assms by (cases d) (auto simp: ensure_field_def)

lemma backfill_non_object:
  assumes "\<And>kvs. v \<noteq> JObject kvs"
  shows "backfill s e d f v =
           (if py_contains ''start'' v = Inr True \<and> py_contains ''end'' v = Inr True
               \<and> py_contains ''duration'' v = Inr True \<and> py_contains ''contract'' v = Inr True
               \<and> py_contains ''tool'' v = Inr True
            then Inr v else Inl TypeError)"
  unfolding backfill_def by (simp add: ensure_field_non_object [OF assms])

lemma process_item_type_error:
  assumes "source_text (item_world ext ip) = Inr contract_code"
    and "reply (item_world ext ip) = Inr text"
    and "json_loads ext (strip_fences text) = Inr v"
    and "backfill (start_clock (item_world ext ip)) (end_clock (item_world ext ip))
           (end_clock (item_world ext ip) - start_clock (item_world ext ip)) sf v = Inl TypeError"
  shows "process_item ext sf cn ip op st =
           st\<lparr>requests := requests st @ [(ip, build_prompt ext contract_code)],
              errors := errors st @ [(cn, TypeError)]\<rparr>"
  using assms
  by (simp add: process_item_def try_item_def parse_and_save_def Let_def)

text \<open>
  Claim C3, as the script has it. Let the cleaned reply parse to a value that is not a
  dict and for which one of the five tests \<open>key not in json_data\<close> does not come out
  false: a number, a boolean or \<open>null\<close> (the test itself raises), a list that lacks one
  of the five names among its elements, or a string that lacks one of them as a piece
  (the assignment raises). Then the fill raises \<open>TypeError\<close>, the handler of the item
  reports it, no file is written, the item is not counted as processed, and the loop
  goes on with the next file.
\<close>

theorem non_object_reply_is_hard_failure:
  assumes "contract_name \<in> names"
    and "out_files st (output_path_of contract_name) = None"
    and "env = item_world ext (input_path_of category (contract_name @ ''.sol''))"
    and "source_text env = Inr contract_code"
    and "reply env = Inr text"
    and "json_loads ext (strip_fences text) = Inr v"
    and "\<And>kvs. v \<noteq> JObject kvs"
    and "k \<in> {''start'', ''end'', ''duration'', ''contract'', ''tool''}"
    and "py_contains k v \<noteq> Inr True"
    and "st' = st\<lparr>found_count := found_count st + 1,
                   found := found st @ [input_path_of category (contract_name @ ''.sol'')],
                   requests := requests st @
                     [(input_path_of category (contract_name @ ''.sol''),
                       build_prompt ext contract_code)],
                   errors := errors st @ [(contract_name, TypeError)]\<rparr>"
  shows "process_file ext names category (contract_name @ ''.sol'') st = st'
       \<and> out_files st' = out_files st \<and> processed_count st' = processed_count st
       \<and> fold (process_file ext names category) ((contract_name @ ''.sol'') # files) st =
           fold (process_file ext names category) files st'"
proof -
  have "backfill (start_clock env) (end_clock env) (end_clock env - start_clock env)
          (contract_name @ ''.sol'') v = Inl TypeError"
    using assms(8,9) by (auto simp: backfill_non_object [OF assms(7)])
  then have "process_file ext names category (contract_name @ ''.sol'') st = st'"
    using assms(1-6,10) by (simp add: process_file_matched process_item_type_error)
  then show ?thesis
    using assms(10) by simp
qed


theorem non_object_reply_is_hard_failure_witness:
  "''Reentrancy1'' \<in> {''Reentrancy1''}
   \<and> out_files (start_state Map.empty) (output_path_of ''Reentrancy1'') = None
   \<and> source_text (scenario_env ''[]'') = Inr ''contract C {}''
   \<and> reply (scenario_env ''[]'') = Inr ''[]''
   \<and> json_loads (scenario_ext (scenario_env ''[]'')) (strip_fences ''[]'') = Inr (JArray [])
   \<and> (\<forall>kvs. JArray [] \<noteq> JObject kvs)
   \<and> py_contains ''start'' (JArray []) \<noteq> Inr True
   \<and> process_file (scenario_ext (scenario_env ''[]'')) {''Reentrancy1''} ''access_control''
         (''Reentrancy1'' @ ''.sol'') (start_state Map.empty) =
       (start_state Map.empty)\<lparr>found_count := found_count (start_state Map.empty) + 1,
          found := found (start_state Map.empty)
            @ [input_path_of ''access_control'' (''Reentrancy1'' @ ''.sol'')],
          requests := requests (start_state Map.empty)
            @ [(input_path_of ''access_control'' (''Reentrancy1'' @ ''.sol''),
                build_prompt (scenario_ext (scenario_env ''[]'')) ''contract C {}'')],
          errors := errors (start_state Map.empty) @ [(''Reentrancy1'', TypeError)]\<rparr>"
  using non_object_reply_is_hard_failure [of "''Reentrancy1''" "{''Reentrancy1''}"
      "start_state Map.empty" "scenario_env ''[]''" "scenario_ext (scenario_env ''[]'')"
      "''access_control''" "''contract C {}''" "''[]''" "JArray []" "''start''", OF _ _ _ _ _ _ _ _ _ refl]
  by (simp add: scenario_simps)

text \<open>
  Claim C3 as stated fails for a non-dict value on which all five tests come out false:
  the list of the five field names is written to the report file as it is, counted as
  processed, and nothing is reported.
\<close>

theorem array_of_field_names_is_persisted:
  \<open>out_files (scenario_run (scenario_env ''["start","end","duration","contract","tool"]''))
     (output_path_of ''Reentrancy1'') =
     Some (JsonText (JArray [JString ''start'', JString ''end'', JString ''duration'',
       JString ''contract'', JString ''tool'']))
   \<and> processed_count (scenario_run (scenario_env ''["start","end","duration","contract","tool"]'')) = 1
   \<and> errors (scenario_run (scenario_env ''["start","end","duration","contract","tool"]'')) = []\<close>
  by (simp add: scenario_run_simps)

section \<open>The outcomes of one contract\<close>

lemma write_file_cases:
  assumes "write_file fault path content fs = (fs', r)"
  shows "(r = None \<and> fault = NoFault \<and> fs' = fs(path \<mapsto> content))
       \<or> (\<exists>msg. r = Some (OtherError msg) \<and> fault = OpenFault msg \<and> fs' = fs)
       \<or> (\<exists>msg. r = Some (OtherError msg) \<and> fault = WriteFault msg \<and> fs' = fs(path \<mapsto> Truncated))"
  using assms by (cases fault) (auto simp: write_file_def)

lemma parse_and_save_cases:
  assumes "parse_and_save ext env s e dur sf op output st = (st', r)"
  shows "(r = None \<and> (\<exists>d. st' = st\<lparr>out_files := (out_files st)(op \<mapsto> JsonText d),
                                     processed_count := processed_count st + 1\<rparr>))
       \<or> (r = Some JSONDecodeError \<and> json_loads ext output = Inl JSONDecodeError \<and> st' = st)
       \<or> (\<exists>x. r = Some x \<and> x \<noteq> JSONDecodeError \<and> st' = st)
       \<or> (\<exists>msg. r = Some (OtherError msg) \<and> json_write env = WriteFault msg
             \<and> st' = st\<lparr>out_files := (out_files st)(op \<mapsto> Truncated)\<rparr>)"
proof (cases "json_loads ext output")
  case (Inl x)
  with assms show ?thesis by (cases "x = JSONDecodeError") (auto simp: parse_and_save_def)
next
  case (Inr v)
  show ?thesis
  proof (cases "backfill s e dur sf v")
    case (Inl x)
    then have "x = TypeError" by (rule backfill_raises)
    with assms Inr Inl show ?thesis by (auto simp: parse_and_save_def)
  next
    case filled: (Inr d)
    obtain fs' w where wf: "write_file (json_write env) op (JsonText d) (out_files st) = (fs', w)"
      by (cases "write_file (json_write env) op (JsonText d) (out_files st)")
    from write_file_cases [OF wf] assms Inr filled wf show ?thesis
      by (auto simp: parse_and_save_def)
  qed
qed

lemma save_raw_cases:
  assumes "save_raw env cn output st = (st', r)"
  shows "(r = None \<and> raw_write env = NoFault
            \<and> st' = st\<lparr>out_files := (out_files st)(raw_path_of cn \<mapsto> RawText output),
                       processed_count := processed_count st + 1\<rparr>)
       \<or> (\<exists>msg. r = Some (OtherError msg) \<and> raw_write env = OpenFault msg
             \<and> st' = st\<lparr>out_files := out_files st\<rparr>)
       \<or> (\<exists>msg. r = Some (OtherError msg) \<and> raw_write env = WriteFault msg
             \<and> st' = st\<lparr>out_files := (out_files st)(raw_path_of cn \<mapsto> Truncated)\<rparr>)"
proof -
  obtain fs' w where wf:
    "write_file (raw_write env) (raw_path_of cn) (RawText output) (out_files st) = (fs', w)"
    by (cases "write_file (raw_write env) (raw_path_of cn) (RawText output) (out_files st)")
  from write_file_cases [OF wf] assms wf show ?thesis
    by (auto simp: save_raw_def)
qed


text \<open>The ways the outer try block can end.\<close>

lemma try_item_elim [consumes 1, case_names read_fails call_fails report raised report_cut
    fallback fallback_refused fallback_cut]:
  assumes run: "try_item ext sf cn ip op st = (st', r)"
    and read_fails: "\<And>x. \<lbrakk>source_text (item_world ext ip) = Inl x; st' = st; r = Some x\<rbrakk> \<Longrightarrow> thesis"
    and call_fails: "\<And>code x. \<lbrakk>source_text (item_world ext ip) = Inr code;
         reply (item_world ext ip) = Inl x;
         st' = st\<lparr>requests := requests st @ [(ip, build_prompt ext code)]\<rparr>; r = Some x\<rbrakk> \<Longrightarrow> thesis"
    and report: "\<And>code t d. \<lbrakk>source_text (item_world ext ip) = Inr code;
         reply (item_world ext ip) = Inr t;
         st' = st\<lparr>requests := requests st @ [(ip, build_prompt ext code)],
                 out_files := (out_files st)(op \<mapsto> JsonText d),
                 processed_count := processed_count st + 1\<rparr>; r = None\<rbrakk> \<Longrightarrow> thesis"
    and raised: "\<And>code t x. \<lbrakk>source_text (item_world ext ip) = Inr code;
         reply (item_world ext ip) = Inr t; x \<noteq> JSONDecodeError;
         st' = st\<lparr>requests := requests st @ [(ip, build_prompt ext code)]\<rparr>; r = Some x\<rbrakk> \<Longrightarrow> thesis"
    and report_cut: "\<And>code t msg. \<lbrakk>source_text (item_world ext ip) = Inr code;
         reply (item_world ext ip) = Inr t; json_write (item_world ext ip) = WriteFault msg;
         st' = st\<lparr>requests := requests st @ [(ip, build_prompt ext code)],
                 out_files := (out_files st)(op \<mapsto> Truncated)\<rparr>;
         r = Some (OtherError msg)\<rbrakk> \<Longrightarrow> thesis"
    and fallback: "\<And>code t. \<lbrakk>source_text (item_world ext ip) = Inr code;
         reply (item_world ext ip) = Inr t;
         json_loads ext (strip_fences t) = Inl JSONDecodeError;
         raw_write (item_world ext ip) = NoFault;
         st' = st\<lparr>requests := requests st @ [(ip, build_prompt ext code)],
                 out_files := (out_files st)(raw_path_of cn \<mapsto> RawText (strip_fences t)),
                 processed_count := processed_count st + 1\<rparr>; r = None\<rbrakk> \<Longrightarrow> thesis"
    and fallback_refused: "\<And>code t msg. \<lbrakk>source_text (item_world ext ip) = Inr code;
         reply (item_world ext ip) = Inr t;
         json_loads ext (strip_fences t) = Inl JSONDecodeError;
         raw_write (item_world ext ip) = OpenFault msg;
         st' = st\<lparr>requests := requests st @ [(ip, build_prompt ext code)]\<rparr>;
         r = Some (OtherError msg)\<rbrakk> \<Longrightarrow> thesis"
    and fallback_cut: "\<And>code t msg. \<lbrakk>source_text (item_world ext ip) = Inr code;
         reply (item_world ext ip) = Inr t;
         json_loads ext (strip_fences t) = Inl JSONDecodeError;
         raw_write (item_world ext ip) = WriteFault msg;
         st' = st\<lparr>requests := requests st @ [(ip, build_prompt ext code)],
                 out_files := (out_files st)(raw_path_of cn \<mapsto> Truncated)\<rparr>;
         r = Some (OtherError msg)\<rbrakk> \<Longrightarrow> thesis"
  shows thesis
proof (cases "source_text (item_world ext ip)")
  case (Inl x)
  with run have "st' = st" "r = Some x" by (simp_all add: try_item_def)
  with Inl show thesis by (rule read_fails)
next
  case code: (Inr code)
  let ?env = "item_world ext ip"
  let ?st1 = "st\<lparr>requests := requests st @ [(ip, build_prompt ext code)]\<rparr>"
  show thesis
  proof (cases "reply ?env")
    case (Inl x)
    with run code have "st' = ?st1" "r = Some x" by (simp_all add: try_item_def)
    with code Inl show thesis by (rule call_fails)
  next
    case rep: (Inr t)
    obtain st2 r2 where ps: "parse_and_save ext ?env (start_clock ?env) (end_clock ?env)
        (end_clock ?env - start_clock ?env) sf op (strip_fences t) ?st1 = (st2, r2)"
      by (cases "parse_and_save ext ?env (start_clock ?env) (end_clock ?env)
        (end_clock ?env - start_clock ?env) sf op (strip_fences t) ?st1")
    have unfolded: "(st', r) =
        (if r2 = Some JSONDecodeError then save_raw ?env cn (strip_fences t) st2 else (st2, r2))"
      using run code rep ps by (simp add: try_item_def Let_def)
    from parse_and_save_cases [OF ps]
    consider (a) d where "r2 = None"
        "st2 = ?st1\<lparr>out_files := (out_files ?st1)(op \<mapsto> JsonText d),
                       processed_count := processed_count ?st1 + 1\<rparr>"
      | (b) "r2 = Some JSONDecodeError" "json_loads ext (strip_fences t) = Inl JSONDecodeError"
          "st2 = ?st1"
      | (c) x where "r2 = Some x" "x \<noteq> JSONDecodeError" "st2 = ?st1"
      | (d) msg where "r2 = Some (OtherError msg)" "json_write ?env = WriteFault msg"
          "st2 = ?st1\<lparr>out_files := (out_files ?st1)(op \<mapsto> Truncated)\<rparr>"
      by blast
    then show thesis
    proof cases
      case a
      with unfolded have "st' = st\<lparr>requests := requests st @ [(ip, build_prompt ext code)],
                 out_files := (out_files st)(op \<mapsto> JsonText d),
                 processed_count := processed_count st + 1\<rparr>" "r = None"
        by simp_all
      with code rep show thesis by (rule report)
    next
      case b
      with unfolded have sr: "save_raw ?env cn (strip_fences t) ?st1 = (st', r)" by simp
      from save_raw_cases [OF sr]
      consider (ok) "r = None" "raw_write ?env = NoFault"
          "st' = ?st1\<lparr>out_files := (out_files ?st1)(raw_path_of cn \<mapsto> RawText (strip_fences t)),
                        processed_count := processed_count ?st1 + 1\<rparr>"
        | (refused) msg where "r = Some (OtherError msg)" "raw_write ?env = OpenFault msg"
            "st' = ?st1\<lparr>out_files := out_files ?st1\<rparr>"
        | (cut) msg where "r = Some (OtherError msg)" "raw_write ?env = WriteFault msg"
            "st' = ?st1\<lparr>out_files := (out_files ?st1)(raw_path_of cn \<mapsto> Truncated)\<rparr>"
        by blast
      then show thesis
      proof cases
        case ok
        then have "st' = st\<lparr>requests := requests st @ [(ip, build_prompt ext code)],
                 out_files := (out_files st)(raw_path_of cn \<mapsto> RawText (strip_fences t)),
                 processed_count := processed_count st + 1\<rparr>"
          by simp
        with code rep b(2) ok(2) show thesis using ok(1) by (rule fallback)
      next
        case refused
        then have "st' = ?st1" by simp
        with code rep b(2) refused(2) show thesis using refused(1) by (rule fallback_refused)
      next
        case cut
        then have "st' = st\<lparr>requests := requests st @ [(ip, build_prompt ext code)],
                 out_files := (out_files st)(raw_path_of cn \<mapsto> Truncated)\<rparr>"
          by simp
        with code rep b(2) cut(2) show thesis using cut(1) by (rule fallback_cut)
      qed
    next
      case c
      with unfolded have "st' = ?st1" "r = Some x" by simp_all
      with code rep c(2) show thesis by (rule raised)
    next
      case d
      with unfolded have "st' = st\<lparr>requests := requests st @ [(ip, build_prompt ext code)],
                 out_files := (out_files st)(op \<mapsto> Truncated)\<rparr>" "r = Some (OtherError msg)"
        by simp_all
      with code rep d(2) show thesis by (rule report_cut)
    qed
  qed
qed


lemma process_item_unfold:
  assumes "try_item ext sf cn ip op st = (st', r)"
  shows "process_item ext sf cn ip op st =
           (case r of None \<Rightarrow> st' | Some e \<Rightarrow> st'\<lparr>errors := errors st' @ [(cn, e)]\<rparr>)"
  using assms by (simp add: process_item_def split: option.split)

text \<open>
  Claim C2, as the script has it. For a selected contract with no report file yet:
  the run writes to at most one of the two files of the contract, never to both. When
  nothing reaches the handler of the item, exactly one complete file is written: the
  report, or the raw fallback holding the cleaned reply as it is, after
  \<open>json.loads\<close> raised \<open>JSONDecodeError\<close>. When an exception reaches the handler (the
  read, the model call, a reply that is not a dict, another exception of the parse, a
  failing write), no complete file is written: each of the two files is as before or cut
  short. And the \<open>JSONDecodeError\<close> of a reply that does not parse is never what the
  handler of the item reports.
\<close>

theorem at_most_one_artifact:
  assumes "contract_name \<in> names"
    and "out_files st (output_path_of contract_name) = None"
    and "env = item_world ext (input_path_of category (contract_name @ ''.sol''))"
    and "st' = process_file ext names category (contract_name @ ''.sol'') st"
  shows "(out_files st' (output_path_of contract_name) = None
           \<or> out_files st' (raw_path_of contract_name) = out_files st (raw_path_of contract_name))
       \<and> (errors st' = errors st \<longrightarrow>
             ((\<exists>d. out_files st' (output_path_of contract_name) = Some (JsonText d))
               \<and> out_files st' (raw_path_of contract_name) = out_files st (raw_path_of contract_name))
           \<or> ((\<exists>t. reply env = Inr t \<and> json_loads ext (strip_fences t) = Inl JSONDecodeError
                  \<and> out_files st' (raw_path_of contract_name) = Some (RawText (strip_fences t)))
               \<and> out_files st' (output_path_of contract_name) = None))
       \<and> (errors st' \<noteq> errors st \<longrightarrow>
             (out_files st' (output_path_of contract_name) = None
               \<or> out_files st' (output_path_of contract_name) = Some Truncated)
           \<and> (out_files st' (raw_path_of contract_name) = out_files st (raw_path_of contract_name)
               \<or> out_files st' (raw_path_of contract_name) = Some Truncated))
       \<and> (\<forall>code t. source_text env = Inr code \<and> reply env = Inr t
               \<and> json_loads ext (strip_fences t) = Inl JSONDecodeError \<longrightarrow>
             (contract_name, JSONDecodeError) \<notin> set (drop (length (errors st)) (errors st')))"
proof -
  let ?sf = "contract_name @ ''.sol''"
  let ?ip = "input_path_of category ?sf"
  let ?op = "output_path_of contract_name"
  let ?st1 = "st\<lparr>found_count := found_count st + 1, found := found st @ [?ip]\<rparr>"
  obtain st2 r where run: "try_item ext ?sf contract_name ?ip ?op ?st1 = (st2, r)"
    by (cases "try_item ext ?sf contract_name ?ip ?op ?st1")
  have st': "st' = (case r of None \<Rightarrow> st2 | Some e \<Rightarrow> st2\<lparr>errors := errors st2 @ [(contract_name, e)]\<rparr>)"
    unfolding assms(4) process_file_matched [OF assms(1,2)]
    by (rule process_item_unfold [OF run])
  note neq = output_path_not_raw_path [of contract_name contract_name]
  from run show ?thesis
  proof (cases rule: try_item_elim)
    case (read_fails x)
    then show ?thesis using st' assms(2,3) by simp
  next
    case (call_fails code x)
    then show ?thesis using st' assms(2,3) by simp
  next
    case (report code t d)
    then show ?thesis using st' assms(2,3) neq by simp
  next
    case (raised code t x)
    then show ?thesis using st' assms(2,3) by simp
  next
    case (report_cut code t msg)
    then show ?thesis using st' assms(2,3) neq by simp
  next
    case (fallback code t)
    then show ?thesis using st' assms(2,3) neq neq [symmetric] by simp
  next
    case (fallback_refused code t msg)
    then show ?thesis using st' assms(2,3) by simp
  next
    case (fallback_cut code t msg)
    then show ?thesis using st' assms(2,3) neq neq [symmetric] by simp
  qed
qed


theorem at_most_one_artifact_witness:
  "''Reentrancy1'' \<in> {''Reentrancy1''}
   \<and> out_files (start_state Map.empty) (output_path_of ''Reentrancy1'') = None
   \<and> errors (process_file (scenario_ext (scenario_env ''not json at all'')) {''Reentrancy1''}
         ''access_control'' (''Reentrancy1'' @ ''.sol'') (start_state Map.empty)) =
       errors (start_state Map.empty)
   \<and> reply (scenario_env ''not json at all'') = Inr ''not json at all''
   \<and> json_loads (scenario_ext (scenario_env ''not json at all''))
         (strip_fences ''not json at all'') = Inl JSONDecodeError
   \<and> out_files (process_file (scenario_ext (scenario_env ''not json at all'')) {''Reentrancy1''}
         ''access_control'' (''Reentrancy1'' @ ''.sol'') (start_state Map.empty))
       (raw_path_of ''Reentrancy1'') = Some (RawText ''not json at all'')
   \<and> out_files (process_file (scenario_ext (scenario_env ''not json at all'')) {''Reentrancy1''}
         ''access_control'' (''Reentrancy1'' @ ''.sol'') (start_state Map.empty))
       (output_path_of ''Reentrancy1'') = None"
proof -
  let ?ext = "scenario_ext (scenario_env ''not json at all'')"
  let ?st = "start_state Map.empty"
  let ?run = "process_file ?ext {''Reentrancy1''} ''access_control'' (''Reentrancy1'' @ ''.sol'') ?st"
  have absent: "out_files ?st (output_path_of ''Reentrancy1'') = None"
    by (simp add: start_state_def)
  have quiet: "errors ?run = errors ?st"
    by (simp add: scenario_run_simps)
  have raw: "out_files ?run (raw_path_of ''Reentrancy1'') = Some (RawText ''not json at all'')"
    by (simp add: scenario_run_simps)
  have was: "out_files ?st (raw_path_of ''Reentrancy1'') = None"
    by (simp add: start_state_def)
  have parse: "json_loads ?ext (strip_fences ''not json at all'') = Inl JSONDecodeError"
    by (simp add: scenario_simps)
  from at_most_one_artifact [of "''Reentrancy1''" "{''Reentrancy1''}" ?st
      "scenario_env ''not json at all''" ?ext "''access_control''" ?run]
  have "errors ?run = errors ?st \<longrightarrow>
      ((\<exists>d. out_files ?run (output_path_of ''Reentrancy1'') = Some (JsonText d))
        \<and> out_files ?run (raw_path_of ''Reentrancy1'') = out_files ?st (raw_path_of ''Reentrancy1''))
      \<or> ((\<exists>t. reply (scenario_env ''not json at all'') = Inr t
             \<and> json_loads ?ext (strip_fences t) = Inl JSONDecodeError
             \<and> out_files ?run (raw_path_of ''Reentrancy1'') = Some (RawText (strip_fences t)))
          \<and> out_files ?run (output_path_of ''Reentrancy1'') = None)"
    using absent by (simp add: scenario_ext_def)
  with quiet raw was have "out_files ?run (output_path_of ''Reentrancy1'') = None"
    by auto
  with absent quiet raw parse show ?thesis
    by (simp add: scenario_env_def)
qed

text \<open>
  Claim C2 as stated fails in the scenario with the reply \<open>[]\<close>: the model was called,
  and neither the report nor the raw fallback exists afterwards.
\<close>

theorem non_object_reply_leaves_no_artifact:
  "requests (scenario_run (scenario_env ''[]'')) =
     [(input_path_of ''access_control'' ''Reentrancy1.sol'',
       build_prompt (scenario_ext (scenario_env ''[]'')) ''contract C {}'')]
   \<and> out_files (scenario_run (scenario_env ''[]'')) (output_path_of ''Reentrancy1'') = None
   \<and> out_files (scenario_run (scenario_env ''[]'')) (raw_path_of ''Reentrancy1'') = None"
  by (simp add: scenario_run_simps)

text \<open>
  Claim C8. For a selected contract, the report file alone decides. If it exists, the
  contract is counted as found and nothing else happens: no read, no call of the model,
  no write. If it does not exist, whatever else the output directory holds (a raw
  fallback of an earlier run included), the contract is processed: once its source is
  read, the model is called with the prompt built from it.
\<close>

theorem skip_by_report_file_only:
  assumes "contract_name \<in> names"
    and "env = item_world ext (input_path_of category (contract_name @ ''.sol''))"
  shows "(out_files st (output_path_of contract_name) \<noteq> None \<longrightarrow>
            process_file ext names category (contract_name @ ''.sol'') st =
              st\<lparr>found_count := found_count st + 1,
                 found := found st @ [input_path_of category (contract_name @ ''.sol'')]\<rparr>)
       \<and> (out_files st (output_path_of contract_name) = None \<and> source_text env = Inr contract_code
            \<longrightarrow> requests (process_file ext names category (contract_name @ ''.sol'') st) =
                  requests st @ [(input_path_of category (contract_name @ ''.sol''),
                                  build_prompt ext contract_code)])"
proof (intro conjI impI)
  assume "out_files st (output_path_of contract_name) \<noteq> None"
  with assms(1) show "process_file ext names category (contract_name @ ''.sol'') st =
      st\<lparr>found_count := found_count st + 1,
         found := found st @ [input_path_of category (contract_name @ ''.sol'')]\<rparr>"
    by (auto simp: process_file_def endswith_sol Let_def)
next
  let ?sf = "contract_name @ ''.sol''"
  let ?ip = "input_path_of category ?sf"
  let ?op = "output_path_of contract_name"
  let ?st1 = "st\<lparr>found_count := found_count st + 1, found := found st @ [?ip]\<rparr>"
  assume a: "out_files st ?op = None \<and> source_text env = Inr contract_code"
  obtain st2 r where run: "try_item ext ?sf contract_name ?ip ?op ?st1 = (st2, r)"
    by (cases "try_item ext ?sf contract_name ?ip ?op ?st1")
  have eq: "process_file ext names category ?sf st =
      (case r of None \<Rightarrow> st2 | Some e \<Rightarrow> st2\<lparr>errors := errors st2 @ [(contract_name, e)]\<rparr>)"
    using a assms(1) process_file_matched [of contract_name names st ext category]
      process_item_unfold [OF run] by simp
  from run show "requests (process_file ext names category ?sf st) =
      requests st @ [(?ip, build_prompt ext contract_code)]"
    unfolding eq using a assms(2)
    by (cases rule: try_item_elim) simp_all
qed

theorem skip_by_report_file_only_witness:
  "''Reentrancy1'' \<in> {''Reentrancy1''}
   \<and> out_files (start_state [output_path_of ''Reentrancy1'' \<mapsto> Truncated])
        (output_path_of ''Reentrancy1'') \<noteq> None
   \<and> requests (process_file (scenario_ext (scenario_env ''{}'')) {''Reentrancy1''}
        ''access_control'' (''Reentrancy1'' @ ''.sol'')
        (start_state [output_path_of ''Reentrancy1'' \<mapsto> Truncated])) = []
   \<and> out_files (start_state [raw_path_of ''Reentrancy1'' \<mapsto> RawText ''not json at all''])
        (output_path_of ''Reentrancy1'') = None
   \<and> source_text (scenario_env ''{}'') = Inr ''contract C {}''
   \<and> requests (process_file (scenario_ext (scenario_env ''{}'')) {''Reentrancy1''}
        ''access_control'' (''Reentrancy1'' @ ''.sol'')
        (start_state [raw_path_of ''Reentrancy1'' \<mapsto> RawText ''not json at all''])) =
      [(input_path_of ''access_control'' (''Reentrancy1'' @ ''.sol''),
        build_prompt (scenario_ext (scenario_env ''{}'')) ''contract C {}'')]"
  using skip_by_report_file_only [of "''Reentrancy1''" "{''Reentrancy1''}"
      "scenario_env ''{}''" "scenario_ext (scenario_env ''{}'')" "''access_control''"
      "start_state [output_path_of ''Reentrancy1'' \<mapsto> Truncated]" "''contract C {}''"]
    skip_by_report_file_only [of "''Reentrancy1''" "{''Reentrancy1''}"
      "scenario_env ''{}''" "scenario_ext (scenario_env ''{}'')" "''access_control''"
      "start_state [raw_path_of ''Reentrancy1'' \<mapsto> RawText ''not json at all'']"
      "''contract C {}''"]
    output_path_not_raw_path [of "''Reentrancy1''" "''Reentrancy1''"]
  by (simp add: scenario_simps)

section \<open>The selection of files\<close>

lemma endswith_sol_split:
  assumes "endswith f ''.sol''"
  shows "f = take (length f - 4) f @ ''.sol''"
proof -
  from assms have "drop (length f - 4) f = ''.sol''"
    by (simp add: endswith_def eval_nat_numeral)
  with append_take_drop_id [of "length f - 4" f] show ?thesis by simp
qed

lemma selected_iff:
  "endswith f ''.sol'' \<and> take (length f - 4) f \<in> names \<longleftrightarrow> (\<exists>i. f = i @ ''.sol'' \<and> i \<in> names)"
proof
  assume "endswith f ''.sol'' \<and> take (length f - 4) f \<in> names"
  then have "f = take (length f - 4) f @ ''.sol'' \<and> take (length f - 4) f \<in> names"
    using endswith_sol_split by blast
  then show "\<exists>i. f = i @ ''.sol'' \<and> i \<in> names" ..
next
  assume "\<exists>i. f = i @ ''.sol'' \<and> i \<in> names"
  then obtain i where "f = i @ ''.sol''" "i \<in> names" by blast
  then show "endswith f ''.sol'' \<and> take (length f - 4) f \<in> names"
    by (simp add: endswith_sol)
qed

lemma selected_eq:
  "(\<lambda>f. endswith f ''.sol'' \<and> take (length f - 4) f \<in> names) =
   (\<lambda>f. \<exists>i. f = i @ ''.sol'' \<and> i \<in> names)"
  by (rule ext) (rule selected_iff)

lemma process_file_not_selected:
  assumes "\<not> (\<exists>i. f = i @ ''.sol'' \<and> i \<in> names)"
  shows "process_file ext names c f st = st"
proof -
  from assms have "\<not> (endswith f ''.sol'' \<and> take (length f - 4) f \<in> names)"
    using selected_iff [of f names] by blast
  then show ?thesis
    by (cases "endswith f ''.sol''") (simp_all add: process_file_def Let_def)
qed

lemma process_item_found:
  "found (process_item ext sf cn ip op st) = found st
   \<and> found_count (process_item ext sf cn ip op st) = found_count st"
proof -
  obtain st' r where run: "try_item ext sf cn ip op st = (st', r)"
    by (cases "try_item ext sf cn ip op st")
  from run show ?thesis
    unfolding process_item_unfold [OF run]
    by (cases rule: try_item_elim) simp_all
qed

lemma process_file_selected_found:
  assumes "i \<in> names"
  shows "found (process_file ext names c (i @ ''.sol'') st) = found st @ [input_path_of c (i @ ''.sol'')]"
    and "found_count (process_file ext names c (i @ ''.sol'') st) = found_count st + 1"
  using assms
  by (simp_all add: process_file_def endswith_sol Let_def process_item_found)

lemma process_file_found:
  "found (process_file ext names c f st) =
     found st @ (if \<exists>i. f = i @ ''.sol'' \<and> i \<in> names then [input_path_of c f] else [])
   \<and> found_count (process_file ext names c f st) =
     found_count st + (if \<exists>i. f = i @ ''.sol'' \<and> i \<in> names then 1 else 0)"
proof (cases "\<exists>i. f = i @ ''.sol'' \<and> i \<in> names")
  case True
  then obtain i where "f = i @ ''.sol''" "i \<in> names" by blast
  then show ?thesis
    using process_file_selected_found [of i names ext c st] by auto
next
  case False
  then show ?thesis by (simp add: process_file_not_selected)
qed

lemma category_found:
  "found (fold (process_file ext names c) files st) =
     found st @ map (input_path_of c)
       (filter (\<lambda>f. endswith f ''.sol'' \<and> take (length f - 4) f \<in> names) files)
   \<and> found_count (fold (process_file ext names c) files st) =
     found_count st
       + length (filter (\<lambda>f. endswith f ''.sol'' \<and> take (length f - 4) f \<in> names) files)"
  unfolding selected_eq
proof (induction files arbitrary: st)
  case Nil
  show ?case by simp
next
  case (Cons f files)
  show ?case
    using Cons.IH [of "process_file ext names c f st"] process_file_found [of ext names c f st]
    by simp
qed

lemma batch_found:
  "found (fold (process_category ext names) input_listing st) =
     found st @ matched_files names input_listing
   \<and> found_count (fold (process_category ext names) input_listing st) =
     found_count st + length (matched_files names input_listing)"
proof (induction input_listing arbitrary: st)
  case Nil
  show ?case by (simp add: matched_files_def)
next
  case (Cons entry rest)
  obtain c e where entry: "entry = (c, e)" by (cases entry)
  show ?case
  proof (cases e)
    case NotDir
    with entry Cons.IH [of st] show ?thesis
      by (simp add: process_category_def matched_files_def)
  next
    case (Dir files)
    with entry Cons.IH [of "fold (process_file ext names c) files st"] category_found [of ext names c files st]
    show ?thesis
      by (simp add: process_category_def matched_files_def)
  qed
qed

lemma set_matched_files:
  "set (matched_files names input_listing) =
     {input_path_of c (i @ ''.sol'') | c i files.
        (c, Dir files) \<in> set input_listing \<and> i @ ''.sol'' \<in> set files \<and> i \<in> names}"
proof -
  have "\<And>x. x \<in> set (matched_files names input_listing) \<longleftrightarrow>
      (\<exists>c i files. x = input_path_of c (i @ ''.sol'') \<and> (c, Dir files) \<in> set input_listing
          \<and> i @ ''.sol'' \<in> set files \<and> i \<in> names)"
    unfolding matched_files_def selected_eq
    by (fastforce split: dir_entry.splits)
  then show ?thesis by blast
qed

lemma category_unrelated_file:
  assumes "\<not> (\<exists>i. f = i @ ''.sol'' \<and> i \<in> names)"
  shows "fold (process_file ext names c) (fs1 @ f # fs2) st =
         fold (process_file ext names c) (fs1 @ fs2) st"
  using assms by (simp add: process_file_not_selected)


lemma run_batch_unrelated_file:
  assumes "\<not> (\<exists>i. f = i @ ''.sol'' \<and> i \<in> mythril_contract_names name_listing)"
  shows "run_batch ext name_listing (pre @ (c, Dir (fs1 @ f # fs2)) # post) st =
         run_batch ext name_listing (pre @ (c, Dir (fs1 @ fs2)) # post) st"
  using category_unrelated_file [OF assms]
  by (simp add: run_batch_def process_category_def)

text \<open>
  Claim C10. The reference names are the entries of the reference directory that are
  directories. The files a run selects, in the order it counts them, are the matched
  files of the input listing, and the counter of found contracts grows by their
  number; as a set these are the files \<open>i.sol\<close> of the category directories with \<open>i\<close> a
  reference name, so entries that are not directories play no part on either side. And
  a further file in a category whose identifier is not a reference name changes
  nothing: the run ends in the same state.
\<close>

theorem corpus_matching:
  assumes "names = mythril_contract_names name_listing"
    and "final = run_batch ext name_listing input_listing st"
  shows "names = {n. (n, True) \<in> set name_listing}
       \<and> found final = found st @ matched_files names input_listing
       \<and> found_count final = found_count st + length (matched_files names input_listing)
       \<and> set (matched_files names input_listing) =
           {input_path_of c (i @ ''.sol'') | c i files.
              (c, Dir files) \<in> set input_listing \<and> i @ ''.sol'' \<in> set files \<and> i \<in> names}
       \<and> (\<forall>pre c fs1 f fs2 post.
             input_listing = pre @ (c, Dir (fs1 @ fs2)) # post
               \<and> \<not> (\<exists>i. f = i @ ''.sol'' \<and> i \<in> names)
             \<longrightarrow> run_batch ext name_listing (pre @ (c, Dir (fs1 @ f # fs2)) # post) st = final)"
proof (intro conjI)
  show "names = {n. (n, True) \<in> set name_listing}"
    unfolding assms(1) mythril_contract_names_def by force
  show "found final = found st @ matched_files names input_listing"
    using batch_found [of ext names input_listing st] assms by (simp add: run_batch_def)
  show "found_count final = found_count st + length (matched_files names input_listing)"
    using batch_found [of ext names input_listing st] assms by (simp add: run_batch_def)
  show "set (matched_files names input_listing) =
           {input_path_of c (i @ ''.sol'') | c i files.
              (c, Dir files) \<in> set input_listing \<and> i @ ''.sol'' \<in> set files \<and> i \<in> names}"
    by (rule set_matched_files)
  show "\<forall>pre c fs1 f fs2 post.
             input_listing = pre @ (c, Dir (fs1 @ fs2)) # post
               \<and> \<not> (\<exists>i. f = i @ ''.sol'' \<and> i \<in> names)
             \<longrightarrow> run_batch ext name_listing (pre @ (c, Dir (fs1 @ f # fs2)) # post) st = final"
  proof (intro allI impI)
    fix pre c fs1 f fs2 post
    assume a: "input_listing = pre @ (c, Dir (fs1 @ fs2)) # post
               \<and> \<not> (\<exists>i. f = i @ ''.sol'' \<and> i \<in> names)"
    then have "\<not> (\<exists>i. f = i @ ''.sol'' \<and> i \<in> mythril_contract_names name_listing)"
      using assms(1) by simp
    from run_batch_unrelated_file [OF this, of ext pre c fs1 fs2 post st]
    show "run_batch ext name_listing (pre @ (c, Dir (fs1 @ f # fs2)) # post) st = final"
      using a assms(2) by simp
  qed
qed

theorem corpus_matching_witness:
  "found (run_batch (scenario_ext (scenario_env ''{}''))
       [(''Reentrancy1'', True), (''README.md'', False)]
       [(''access_control'', Dir [''Reentrancy1.sol'', ''Other.sol'']), (''notes.txt'', NotDir)]
       (start_state Map.empty)) =
     [''unlabelled_dataset/access_control/Reentrancy1.sol'']
   \<and> found_count (run_batch (scenario_ext (scenario_env ''{}''))
       [(''Reentrancy1'', True), (''README.md'', False)]
       [(''access_control'', Dir [''Reentrancy1.sol'', ''Other.sol'']), (''notes.txt'', NotDir)]
       (start_state Map.empty)) = 1
   \<and> run_batch (scenario_ext (scenario_env ''{}''))
       [(''Reentrancy1'', True), (''README.md'', False)]
       [(''access_control'', Dir [''Reentrancy1.sol'', ''Extra.sol'', ''Other.sol'']),
        (''notes.txt'', NotDir)]
       (start_state Map.empty) =
     run_batch (scenario_ext (scenario_env ''{}''))
       [(''Reentrancy1'', True), (''README.md'', False)]
       [(''access_control'', Dir [''Reentrancy1.sol'', ''Other.sol'']), (''notes.txt'', NotDir)]
       (start_state Map.empty)"
proof -
  let ?ext = "scenario_ext (scenario_env ''{}'')"
  let ?nl = "[(''Reentrancy1'', True), (''README.md'', False)]"
  let ?il = "[(''access_control'', Dir [''Reentrancy1.sol'', ''Other.sol'']), (''notes.txt'', NotDir)]"
  let ?st = "start_state Map.empty"
  let ?names = "mythril_contract_names ?nl"
  note inst = corpus_matching [of ?names ?nl "run_batch ?ext ?nl ?il ?st" ?ext ?il ?st, OF refl refl]
  have names: "?names = {''Reentrancy1''}"
    by (simp add: mythril_contract_names_def)
  have m: "matched_files ?names ?il = [''unlabelled_dataset/access_control/Reentrancy1.sol'']"
    by (simp add: names matched_files_def endswith_def input_path_of_def path_join_def
        INPUT_DIR_def)
  have unrelated: "\<not> (\<exists>i. ''Extra.sol'' = i @ ''.sol'' \<and> i \<in> ?names)"
    using selected_iff [of "''Extra.sol''" ?names] by (simp add: names endswith_def)
  have shape: "?il = [] @ (''access_control'', Dir ([''Reentrancy1.sol''] @ [''Other.sol'']))
      # [(''notes.txt'', NotDir)]"
    by simp
  from inst have "found (run_batch ?ext ?nl ?il ?st) = found ?st @ matched_files ?names ?il"
    by (rule conjunct2 [THEN conjunct1])
  moreover from inst
  have "found_count (run_batch ?ext ?nl ?il ?st) = found_count ?st + length (matched_files ?names ?il)"
    by (rule conjunct2 [THEN conjunct2, THEN conjunct1])
  moreover from inst have "\<forall>pre c fs1 f fs2 post.
             ?il = pre @ (c, Dir (fs1 @ fs2)) # post
               \<and> \<not> (\<exists>i. f = i @ ''.sol'' \<and> i \<in> ?names)
             \<longrightarrow> run_batch ?ext ?nl (pre @ (c, Dir (fs1 @ f # fs2)) # post) ?st =
                 run_batch ?ext ?nl ?il ?st"
    by (rule conjunct2 [THEN conjunct2, THEN conjunct2, THEN conjunct2])
  then have "?il = [] @ (''access_control'', Dir ([''Reentrancy1.sol''] @ [''Other.sol'']))
        # [(''notes.txt'', NotDir)]
      \<and> \<not> (\<exists>i. ''Extra.sol'' = i @ ''.sol'' \<and> i \<in> ?names)
      \<longrightarrow> run_batch ?ext ?nl ([] @ (''access_control'',
            Dir ([''Reentrancy1.sol''] @ ''Extra.sol'' # [''Other.sol''])) # [(''notes.txt'', NotDir)]) ?st =
          run_batch ?ext ?nl ?il ?st"
    by blast
  with shape unrelated
  have "run_batch ?ext ?nl ([] @ (''access_control'',
            Dir ([''Reentrancy1.sol''] @ ''Extra.sol'' # [''Other.sol''])) # [(''notes.txt'', NotDir)]) ?st =
          run_batch ?ext ?nl ?il ?st"
    by blast
  ultimately show ?thesis
    using m by (simp add: start_state_def)
qed

section \<open>The batch goes on\<close>

lemma run_batch_items:
  "run_batch ext name_listing input_listing st =
     fold (\<lambda>(c, f). process_file ext (mythril_contract_names name_listing) c f)
       (batch_items input_listing) st"
proof (induction input_listing arbitrary: st)
  case Nil
  show ?case by (simp add: run_batch_def batch_items_def)
next
  case (Cons entry rest)
  obtain c e where entry: "entry = (c, e)" by (cases entry)
  have step: "process_category ext (mythril_contract_names name_listing) entry st =
      fold (\<lambda>(c, f). process_file ext (mythril_contract_names name_listing) c f)
        (case e of NotDir \<Rightarrow> [] | Dir files \<Rightarrow> map (Pair c) files) st"
    by (cases e) (simp_all add: entry process_category_def fold_map comp_def)
  have items: "batch_items (entry # rest) =
      (case e of NotDir \<Rightarrow> [] | Dir files \<Rightarrow> map (Pair c) files) @ batch_items rest"
    by (simp add: batch_items_def entry)
  have "fold (\<lambda>(c, f). process_file ext (mythril_contract_names name_listing) c f)
          (batch_items (entry # rest)) st =
        fold (\<lambda>(c, f). process_file ext (mythril_contract_names name_listing) c f)
          (batch_items rest)
          (process_category ext (mythril_contract_names name_listing) entry st)"
    unfolding items step by simp
  also have "\<dots> = run_batch ext name_listing rest
          (process_category ext (mythril_contract_names name_listing) entry st)"
    by (rule Cons.IH [symmetric])
  also have "\<dots> = run_batch ext name_listing (entry # rest) st"
    by (simp add: run_batch_def)
  finally show ?case by (rule sym)
qed

lemma process_file_other:
  assumes "f \<noteq> cn @ ''.sol''"
  shows "view cn (process_file ext names c f st) = view cn st"
proof (cases "\<exists>i. f = i @ ''.sol'' \<and> i \<in> names")
  case False
  then show ?thesis by (simp add: process_file_not_selected)
next
  case True
  then obtain i where f: "f = i @ ''.sol''" and i: "i \<in> names" by blast
  with assms have ne: "i \<noteq> cn" by auto
  note paths = output_path_not_raw_path [of i cn] output_path_not_raw_path [of cn i, symmetric]
  let ?st1 = "st\<lparr>found_count := found_count st + 1, found := found st @ [input_path_of c f]\<rparr>"
  show ?thesis
  proof (cases "out_files st (output_path_of i) = None")
    case False
    then show ?thesis
      using i by (simp add: f process_file_def endswith_sol Let_def view_def)
  next
    case absent: True
    obtain st2 r where run:
      "try_item ext (i @ ''.sol'') i (input_path_of c (i @ ''.sol'')) (output_path_of i)
         (st\<lparr>found_count := found_count st + 1,
             found := found st @ [input_path_of c (i @ ''.sol'')]\<rparr>) = (st2, r)"
      by (cases "try_item ext (i @ ''.sol'') i (input_path_of c (i @ ''.sol'')) (output_path_of i)
         (st\<lparr>found_count := found_count st + 1,
             found := found st @ [input_path_of c (i @ ''.sol'')]\<rparr>)")
    have eq: "process_file ext names c f st =
        (case r of None \<Rightarrow> st2 | Some e \<Rightarrow> st2\<lparr>errors := errors st2 @ [(i, e)]\<rparr>)"
      unfolding f process_file_matched [OF i absent] by (rule process_item_unfold [OF run])
    from run show ?thesis
      unfolding eq view_def using ne paths
      by (cases rule: try_item_elim) auto
  qed
qed

lemma fold_other:
  assumes "cn @ ''.sol'' \<notin> snd ` set items"
  shows "view cn (fold (\<lambda>(c, f). process_file ext names c f) items st) = view cn st"
  using assms
proof (induction items arbitrary: st)
  case Nil
  show ?case by simp
next
  case (Cons item items)
  obtain c f where item: "item = (c, f)" by (cases item)
  with Cons.prems have "f \<noteq> cn @ ''.sol''" and rest: "cn @ ''.sol'' \<notin> snd ` set items"
    by auto
  then show ?case
    using Cons.IH [OF rest, of "process_file ext names c f st"]
    by (simp add: item process_file_other)
qed



lemma process_item_raised:
  assumes "env = item_world ext ip"
  shows "source_text env = Inl x \<Longrightarrow>
           process_item ext sf cn ip op st = st\<lparr>errors := errors st @ [(cn, x)]\<rparr>"
    and "\<lbrakk>source_text env = Inr contract_code; reply env = Inl x\<rbrakk> \<Longrightarrow>
           process_item ext sf cn ip op st =
             st\<lparr>requests := requests st @ [(ip, build_prompt ext contract_code)],
                errors := errors st @ [(cn, x)]\<rparr>"
    and "\<lbrakk>source_text env = Inr contract_code; reply env = Inr w;
           json_loads ext (strip_fences w) = Inl x; x \<noteq> JSONDecodeError\<rbrakk> \<Longrightarrow>
           process_item ext sf cn ip op st =
             st\<lparr>requests := requests st @ [(ip, build_prompt ext contract_code)],
                errors := errors st @ [(cn, x)]\<rparr>"
  using assms
  by (simp_all add: process_item_def try_item_def parse_and_save_def Let_def)

lemma process_item_report_write:
  assumes "env = item_world ext ip"
    and "source_text env = Inr contract_code"
    and "reply env = Inr w"
    and "json_loads ext (strip_fences w) = Inr v"
    and "backfill (start_clock env) (end_clock env) (end_clock env - start_clock env) sf v = Inr d"
  shows "json_write env = OpenFault msg \<Longrightarrow>
           process_item ext sf cn ip op st =
             st\<lparr>requests := requests st @ [(ip, build_prompt ext contract_code)],
                errors := errors st @ [(cn, OtherError msg)]\<rparr>"
    and "json_write env = WriteFault msg \<Longrightarrow>
           process_item ext sf cn ip op st =
             st\<lparr>requests := requests st @ [(ip, build_prompt ext contract_code)],
                out_files := (out_files st)(op \<mapsto> Truncated),
                errors := errors st @ [(cn, OtherError msg)]\<rparr>"
  using assms
  by (simp_all add: process_item_def try_item_def parse_and_save_def write_file_def Let_def)

lemma process_item_fallback:
  assumes "env = item_world ext ip"
    and "source_text env = Inr contract_code"
    and "reply env = Inr w"
    and "json_loads ext (strip_fences w) = Inl JSONDecodeError"
  shows "raw_write env = NoFault \<Longrightarrow>
           process_item ext sf cn ip op st =
             st\<lparr>requests := requests st @ [(ip, build_prompt ext contract_code)],
                out_files := (out_files st)(raw_path_of cn \<mapsto> RawText (strip_fences w)),
                processed_count := processed_count st + 1\<rparr>"
    and "raw_write env = OpenFault msg \<Longrightarrow>
           process_item ext sf cn ip op st =
             st\<lparr>requests := requests st @ [(ip, build_prompt ext contract_code)],
                errors := errors st @ [(cn, OtherError msg)]\<rparr>"
    and "raw_write env = WriteFault msg \<Longrightarrow>
           process_item ext sf cn ip op st =
             st\<lparr>requests := requests st @ [(ip, build_prompt ext contract_code)],
                out_files := (out_files st)(raw_path_of cn \<mapsto> Truncated),
                errors := errors st @ [(cn, OtherError msg)]\<rparr>"
  using assms
  by (simp_all add: process_item_def try_item_def parse_and_save_def save_raw_def write_file_def
      Let_def)


lemma process_file_own_summary:
  assumes "cn \<in> names"
    and "view cn st = (None, raw0, {})"
    and "view cn (process_file ext names c (cn @ ''.sol'') st) = (j, w, rs)"
  shows "(rs = {} \<longrightarrow> (\<exists>d. j = Some (JsonText d)) \<and> w = raw0
                    \<or> (\<exists>t. w = Some (RawText t)) \<and> j = None)
       \<and> (rs \<noteq> {} \<longrightarrow> (j = None \<or> j = Some Truncated) \<and> (w = raw0 \<or> w = Some Truncated))"
proof -
  from assms(2) have absent: "out_files st (output_path_of cn) = None"
    and raw0: "out_files st (raw_path_of cn) = raw0"
    and quiet: "\<And>e. (cn, e) \<notin> set (errors st)"
    by (auto simp: view_def)
  obtain st2 r where run:
    "try_item ext (cn @ ''.sol'') cn (input_path_of c (cn @ ''.sol'')) (output_path_of cn)
       (st\<lparr>found_count := found_count st + 1,
           found := found st @ [input_path_of c (cn @ ''.sol'')]\<rparr>) = (st2, r)"
    by (cases "try_item ext (cn @ ''.sol'') cn (input_path_of c (cn @ ''.sol'')) (output_path_of cn)
       (st\<lparr>found_count := found_count st + 1,
           found := found st @ [input_path_of c (cn @ ''.sol'')]\<rparr>)")
  have eq: "process_file ext names c (cn @ ''.sol'') st =
      (case r of None \<Rightarrow> st2 | Some e \<Rightarrow> st2\<lparr>errors := errors st2 @ [(cn, e)]\<rparr>)"
    unfolding process_file_matched [OF assms(1) absent] by (rule process_item_unfold [OF run])
  note neq = output_path_not_raw_path [of cn cn] output_path_not_raw_path [of cn cn, symmetric]
  from run show ?thesis
    using assms(3) absent raw0 quiet neq
    unfolding eq view_def
    by (cases rule: try_item_elim) auto
qed

text \<open>
  Claim C9, as the script has it. Take a batch that reaches the file of a selected
  contract once (no other file of the batch has its name), with no report file for it
  at the start. The run goes through the whole batch whatever happens to any contract,
  and at its end the contract's two files and the exceptions reported for it are
  decided by where its processing raised:
  the read, the model call, a parse exception other than \<open>JSONDecodeError\<close>, the fill,
  or the opening of the output file: that one exception is reported and the two files
  are as they were at the start, so nothing is persisted;
  the write into the opened report or raw file: the exception is reported and that file
  is left cut short, the other as it was;
  nothing: no exception is reported and the report (when the reply parsed) or the raw
  fallback with the cleaned reply (when it did not) is there, complete.
  So every contract for which nothing is reported ends with one complete file, however
  many others fail, and one for which something is reported ends with no complete file.
\<close>

theorem failure_isolation:
  assumes "batch_items input_listing = pre @ (category, contract_name @ ''.sol'') # post"
    and "contract_name @ ''.sol'' \<notin> snd ` set (pre @ post)"
    and "contract_name \<in> mythril_contract_names name_listing"
    and "fs (output_path_of contract_name) = None"
    and "before = fs (raw_path_of contract_name)"
    and "final = run_batch ext name_listing input_listing (start_state fs)"
    and "report = out_files final (output_path_of contract_name)"
    and "raw = out_files final (raw_path_of contract_name)"
    and "reported = {e. (contract_name, e) \<in> set (errors final)}"
    and "env = item_world ext (input_path_of category (contract_name @ ''.sol''))"
    and "filled = backfill (start_clock env) (end_clock env) (end_clock env - start_clock env)
           (contract_name @ ''.sol'') v"
  shows "(source_text env = Inl x \<longrightarrow> reported = {x} \<and> report = None \<and> raw = before)
       \<and> (source_text env = Inr contract_code \<and> reply env = Inl x \<longrightarrow>
            reported = {x} \<and> report = None \<and> raw = before)
       \<and> (source_text env = Inr contract_code \<and> reply env = Inr w
            \<and> json_loads ext (strip_fences w) = Inl x \<and> x \<noteq> JSONDecodeError \<longrightarrow>
            reported = {x} \<and> report = None \<and> raw = before)
       \<and> (source_text env = Inr contract_code \<and> reply env = Inr w
            \<and> json_loads ext (strip_fences w) = Inr v \<and> filled = Inl x \<longrightarrow>
            reported = {x} \<and> report = None \<and> raw = before)
       \<and> (source_text env = Inr contract_code \<and> reply env = Inr w
            \<and> json_loads ext (strip_fences w) = Inr v \<and> filled = Inr d
            \<and> json_write env = OpenFault msg \<longrightarrow>
            reported = {OtherError msg} \<and> report = None \<and> raw = before)
       \<and> (source_text env = Inr contract_code \<and> reply env = Inr w
            \<and> json_loads ext (strip_fences w) = Inr v \<and> filled = Inr d
            \<and> json_write env = WriteFault msg \<longrightarrow>
            reported = {OtherError msg} \<and> report = Some Truncated \<and> raw = before)
       \<and> (source_text env = Inr contract_code \<and> reply env = Inr w
            \<and> json_loads ext (strip_fences w) = Inr v \<and> filled = Inr d
            \<and> json_write env = NoFault \<longrightarrow>
            reported = {} \<and> report = Some (JsonText d) \<and> raw = before)
       \<and> (source_text env = Inr contract_code \<and> reply env = Inr w
            \<and> json_loads ext (strip_fences w) = Inl JSONDecodeError
            \<and> raw_write env = NoFault \<longrightarrow>
            reported = {} \<and> report = None \<and> raw = Some (RawText (strip_fences w)))
       \<and> (source_text env = Inr contract_code \<and> reply env = Inr w
            \<and> json_loads ext (strip_fences w) = Inl JSONDecodeError
            \<and> raw_write env = OpenFault msg \<longrightarrow>
            reported = {OtherError msg} \<and> report = None \<and> raw = before)
       \<and> (source_text env = Inr contract_code \<and> reply env = Inr w
            \<and> json_loads ext (strip_fences w) = Inl JSONDecodeError
            \<and> raw_write env = WriteFault msg \<longrightarrow>
            reported = {OtherError msg} \<and> report = None \<and> raw = Some Truncated)
       \<and> (reported = {} \<longrightarrow>
            (\<exists>d. report = Some (JsonText d)) \<and> raw = before
          \<or> (\<exists>t. raw = Some (RawText t)) \<and> report = None)
       \<and> (reported \<noteq> {} \<longrightarrow>
            (report = None \<or> report = Some Truncated) \<and> (raw = before \<or> raw = Some Truncated))"
proof -
  let ?names = "mythril_contract_names name_listing"
  let ?F = "\<lambda>(c, f). process_file ext ?names c f"
  let ?sf = "contract_name @ ''.sol''"
  let ?ip = "input_path_of category ?sf"
  let ?op = "output_path_of contract_name"
  let ?s1 = "fold ?F pre (start_state fs)"
  let ?s1' = "?s1\<lparr>found_count := found_count ?s1 + 1, found := found ?s1 @ [?ip]\<rparr>"
  let ?s2 = "process_file ext ?names category ?sf ?s1"
  from assms(2) have early: "?sf \<notin> snd ` set pre" and late: "?sf \<notin> snd ` set post"
    by auto
  have final: "final = fold ?F post ?s2"
    unfolding assms(6) run_batch_items assms(1) by simp
  have "view contract_name ?s1 = view contract_name (start_state fs)"
    using early by (rule fold_other)
  then have v1: "view contract_name ?s1 = (None, before, {})"
    using assms(4,5) by (simp add: view_def start_state_def)
  then have absent: "out_files ?s1 ?op = None"
    and raw0: "out_files ?s1 (raw_path_of contract_name) = before"
    and quiet: "\<And>e. (contract_name, e) \<notin> set (errors ?s1)"
    by (auto simp: view_def)
  have "view contract_name final = view contract_name ?s2"
    unfolding final using late by (rule fold_other)
  then have v2: "view contract_name ?s2 = (report, raw, reported)"
    using assms(7,8,9) by (simp add: view_def)
  have s2: "?s2 = process_item ext ?sf contract_name ?ip ?op ?s1'"
    using assms(3) absent by (rule process_file_matched)
  note neq = output_path_not_raw_path [of contract_name contract_name]
    output_path_not_raw_path [of contract_name contract_name, symmetric]
  note facts = absent raw0 quiet neq
  have c1: "source_text env = Inl x \<longrightarrow> reported = {x} \<and> report = None \<and> raw = before"
  proof
    assume "source_text env = Inl x"
    from process_item_raised(1) [OF assms(10) this, of ?sf contract_name ?op ?s1'] v2 facts
    show "reported = {x} \<and> report = None \<and> raw = before"
      unfolding s2 by (auto simp: view_def)
  qed
  have c2: "source_text env = Inr contract_code \<and> reply env = Inl x \<longrightarrow>
      reported = {x} \<and> report = None \<and> raw = before"
  proof
    assume "source_text env = Inr contract_code \<and> reply env = Inl x"
    then have a: "source_text env = Inr contract_code" "reply env = Inl x" by blast+
    from process_item_raised(2) [OF assms(10) a, of ?sf contract_name ?op ?s1'] v2 facts
    show "reported = {x} \<and> report = None \<and> raw = before"
      unfolding s2 by (auto simp: view_def)
  qed
  have c3: "source_text env = Inr contract_code \<and> reply env = Inr w
      \<and> json_loads ext (strip_fences w) = Inl x \<and> x \<noteq> JSONDecodeError \<longrightarrow>
      reported = {x} \<and> report = None \<and> raw = before"
  proof
    assume "source_text env = Inr contract_code \<and> reply env = Inr w
      \<and> json_loads ext (strip_fences w) = Inl x \<and> x \<noteq> JSONDecodeError"
    then have a: "source_text env = Inr contract_code" "reply env = Inr w"
      "json_loads ext (strip_fences w) = Inl x" "x \<noteq> JSONDecodeError" by blast+
    from process_item_raised(3) [OF assms(10) a, of ?sf contract_name ?op ?s1'] v2 facts
    show "reported = {x} \<and> report = None \<and> raw = before"
      unfolding s2 by (auto simp: view_def)
  qed
  have c4: "source_text env = Inr contract_code \<and> reply env = Inr w
      \<and> json_loads ext (strip_fences w) = Inr v \<and> filled = Inl x \<longrightarrow>
      reported = {x} \<and> report = None \<and> raw = before"
  proof
    assume "source_text env = Inr contract_code \<and> reply env = Inr w
      \<and> json_loads ext (strip_fences w) = Inr v \<and> filled = Inl x"
    then have a: "source_text (item_world ext ?ip) = Inr contract_code"
      "reply (item_world ext ?ip) = Inr w" "json_loads ext (strip_fences w) = Inr v"
      "backfill (start_clock (item_world ext ?ip)) (end_clock (item_world ext ?ip))
         (end_clock (item_world ext ?ip) - start_clock (item_world ext ?ip)) ?sf v = Inl x"
      using assms(10,11) by auto
    from process_item_fill_raises [OF a, of contract_name ?op ?s1'] v2 facts
    show "reported = {x} \<and> report = None \<and> raw = before"
      unfolding s2 by (auto simp: view_def)
  qed
  have c5: "source_text env = Inr contract_code \<and> reply env = Inr w
      \<and> json_loads ext (strip_fences w) = Inr v \<and> filled = Inr d
      \<and> json_write env = OpenFault msg \<longrightarrow>
      reported = {OtherError msg} \<and> report = None \<and> raw = before"
  proof
    assume "source_text env = Inr contract_code \<and> reply env = Inr w
      \<and> json_loads ext (strip_fences w) = Inr v \<and> filled = Inr d
      \<and> json_write env = OpenFault msg"
    then have a: "source_text env = Inr contract_code" "reply env = Inr w"
      "json_loads ext (strip_fences w) = Inr v"
      "backfill (start_clock env) (end_clock env) (end_clock env - start_clock env) ?sf v = Inr d"
      and b: "json_write env = OpenFault msg"
      using assms(11) by auto
    from process_item_report_write(1) [OF assms(10) a b, of contract_name ?op ?s1'] v2 facts
    show "reported = {OtherError msg} \<and> report = None \<and> raw = before"
      unfolding s2 by (auto simp: view_def)
  qed
  have c6: "source_text env = Inr contract_code \<and> reply env = Inr w
      \<and> json_loads ext (strip_fences w) = Inr v \<and> filled = Inr d
      \<and> json_write env = WriteFault msg \<longrightarrow>
      reported = {OtherError msg} \<and> report = Some Truncated \<and> raw = before"
  proof
    assume "source_text env = Inr contract_code \<and> reply env = Inr w
      \<and> json_loads ext (strip_fences w) = Inr v \<and> filled = Inr d
      \<and> json_write env = WriteFault msg"
    then have a: "source_text env = Inr contract_code" "reply env = Inr w"
      "json_loads ext (strip_fences w) = Inr v"
      "backfill (start_clock env) (end_clock env) (end_clock env - start_clock env) ?sf v = Inr d"
      and b: "json_write env = WriteFault msg"
      using assms(11) by auto
    from process_item_report_write(2) [OF assms(10) a b, of contract_name ?op ?s1'] v2 facts
    show "reported = {OtherError msg} \<and> report = Some Truncated \<and> raw = before"
      unfolding s2 by (auto simp: view_def)
  qed
  have c7: "source_text env = Inr contract_code \<and> reply env = Inr w
      \<and> json_loads ext (strip_fences w) = Inr v \<and> filled = Inr d
      \<and> json_write env = NoFault \<longrightarrow>
      reported = {} \<and> report = Some (JsonText d) \<and> raw = before"
  proof
    assume "source_text env = Inr contract_code \<and> reply env = Inr w
      \<and> json_loads ext (strip_fences w) = Inr v \<and> filled = Inr d
      \<and> json_write env = NoFault"
    then have a: "source_text (item_world ext ?ip) = Inr contract_code"
      "reply (item_world ext ?ip) = Inr w" "json_loads ext (strip_fences w) = Inr v"
      "backfill (start_clock (item_world ext ?ip)) (end_clock (item_world ext ?ip))
         (end_clock (item_world ext ?ip) - start_clock (item_world ext ?ip)) ?sf v = Inr d"
      "json_write (item_world ext ?ip) = NoFault"
      using assms(10,11) by auto
    from process_item_saved [OF a, of contract_name ?op ?s1'] v2 facts
    show "reported = {} \<and> report = Some (JsonText d) \<and> raw = before"
      unfolding s2 by (auto simp: view_def)
  qed
  have c8: "source_text env = Inr contract_code \<and> reply env = Inr w
      \<and> json_loads ext (strip_fences w) = Inl JSONDecodeError
      \<and> raw_write env = NoFault \<longrightarrow>
      reported = {} \<and> report = None \<and> raw = Some (RawText (strip_fences w))"
  proof
    assume "source_text env = Inr contract_code \<and> reply env = Inr w
      \<and> json_loads ext (strip_fences w) = Inl JSONDecodeError \<and> raw_write env = NoFault"
    then have a: "source_text env = Inr contract_code" "reply env = Inr w"
      "json_loads ext (strip_fences w) = Inl JSONDecodeError" and b: "raw_write env = NoFault"
      by blast+
    from process_item_fallback(1) [OF assms(10) a b, of ?sf contract_name ?op ?s1'] v2 facts
    show "reported = {} \<and> report = None \<and> raw = Some (RawText (strip_fences w))"
      unfolding s2 by (auto simp: view_def)
  qed
  have c9: "source_text env = Inr contract_code \<and> reply env = Inr w
      \<and> json_loads ext (strip_fences w) = Inl JSONDecodeError
      \<and> raw_write env = OpenFault msg \<longrightarrow>
      reported = {OtherError msg} \<and> report = None \<and> raw = before"
  proof
    assume "source_text env = Inr contract_code \<and> reply env = Inr w
      \<and> json_loads ext (strip_fences w) = Inl JSONDecodeError \<and> raw_write env = OpenFault msg"
    then have a: "source_text env = Inr contract_code" "reply env = Inr w"
      "json_loads ext (strip_fences w) = Inl JSONDecodeError" and b: "raw_write env = OpenFault msg"
      by blast+
    from process_item_fallback(2) [OF assms(10) a b, of ?sf contract_name ?op ?s1'] v2 facts
    show "reported = {OtherError msg} \<and> report = None \<and> raw = before"
      unfolding s2 by (auto simp: view_def)
  qed
  have c10: "source_text env = Inr contract_code \<and> reply env = Inr w
      \<and> json_loads ext (strip_fences w) = Inl JSONDecodeError
      \<and> raw_write env = WriteFault msg \<longrightarrow>
      reported = {OtherError msg} \<and> report = None \<and> raw = Some Truncated"
  proof
    assume "source_text env = Inr contract_code \<and> reply env = Inr w
      \<and> json_loads ext (strip_fences w) = Inl JSONDecodeError \<and> raw_write env = WriteFault msg"
    then have a: "source_text env = Inr contract_code" "reply env = Inr w"
      "json_loads ext (strip_fences w) = Inl JSONDecodeError" and b: "raw_write env = WriteFault msg"
      by blast+
    from process_item_fallback(3) [OF assms(10) a b, of ?sf contract_name ?op ?s1'] v2 facts
    show "reported = {OtherError msg} \<and> report = None \<and> raw = Some Truncated"
      unfolding s2 by (auto simp: view_def)
  qed
  note c11 = process_file_own_summary [OF assms(3) v1 v2, THEN conjunct1]
  note c12 = process_file_own_summary [OF assms(3) v1 v2, THEN conjunct2]
  show ?thesis
    by (intro conjI) (fact c1 c2 c3 c4 c5 c6 c7 c8 c9 c10 c11 c12)+
qed


lemmas batch_run_simps = batch_run_def batch_ext_def batch_world_def run_batch_def
  process_category_def mythril_contract_names_def scenario_env_def scenario_loads_def
  process_file_def process_item_def try_item_def parse_and_save_def save_raw_def write_file_def
  start_state_def endswith_def startswith_def strip_fences_def strip_closer_def strip_def
  isspace_def output_path_of_def raw_path_of_def input_path_of_def path_join_def OUTPUT_DIR_def
  INPUT_DIR_def backfill_def ensure_field_def build_prompt_def

theorem failure_isolation_witness:
  "batch_items [(''access_control'', Dir [''A.sol'', ''B.sol'', ''C.sol''])] =
     [] @ (''access_control'', ''A'' @ ''.sol'')
        # [(''access_control'', ''B.sol''), (''access_control'', ''C.sol'')]
   \<and> ''A'' @ ''.sol''
        \<notin> snd ` set ([] @ [(''access_control'', ''B.sol''), (''access_control'', ''C.sol'')])
   \<and> ''A'' \<in> mythril_contract_names [(''A'', True), (''B'', True), (''C'', True)]
   \<and> source_text (item_world (batch_ext ((scenario_env ''{}'')\<lparr>reply := Inl (OtherError ''timeout'')\<rparr>))
        (input_path_of ''access_control'' (''A'' @ ''.sol''))) = Inr ''contract C {}''
   \<and> reply (item_world (batch_ext ((scenario_env ''{}'')\<lparr>reply := Inl (OtherError ''timeout'')\<rparr>))
        (input_path_of ''access_control'' (''A'' @ ''.sol''))) = Inl (OtherError ''timeout'')
   \<and> {e. (''A'', e) \<in> set (errors
          (batch_run ((scenario_env ''{}'')\<lparr>reply := Inl (OtherError ''timeout'')\<rparr>)))} =
        {OtherError ''timeout''}
   \<and> out_files (batch_run ((scenario_env ''{}'')\<lparr>reply := Inl (OtherError ''timeout'')\<rparr>))
        (output_path_of ''A'') = None
   \<and> out_files (batch_run ((scenario_env ''{}'')\<lparr>reply := Inl (OtherError ''timeout'')\<rparr>))
        (raw_path_of ''A'') = None
   \<and> batch_items [(''access_control'', Dir [''A.sol'', ''B.sol'', ''C.sol''])] =
     [(''access_control'', ''A.sol'')] @ (''access_control'', ''B'' @ ''.sol'')
        # [(''access_control'', ''C.sol'')]
   \<and> {e. (''B'', e) \<in> set (errors
          (batch_run ((scenario_env ''{}'')\<lparr>reply := Inl (OtherError ''timeout'')\<rparr>)))} = {}
   \<and> out_files (batch_run ((scenario_env ''{}'')\<lparr>reply := Inl (OtherError ''timeout'')\<rparr>))
        (output_path_of ''B'') =
      Some (JsonText (JObject [(''start'', JInt 100), (''end'', JInt 103), (''duration'', JInt 3),
        (''contract'', JString ''B.sol''), (''tool'', JString ''mythril'')]))
   \<and> out_files (batch_run ((scenario_env ''{}'')\<lparr>reply := Inl (OtherError ''timeout'')\<rparr>))
        (raw_path_of ''B'') = None"
proof -
  let ?first = "(scenario_env ''{}'')\<lparr>reply := Inl (OtherError ''timeout'')\<rparr>"
  let ?ext = "batch_ext ?first"
  let ?il = "[(''access_control'', Dir [''A.sol'', ''B.sol'', ''C.sol''])]"
  let ?nl = "[(''A'', True), (''B'', True), (''C'', True)]"
  let ?envA = "item_world ?ext (input_path_of ''access_control'' (''A'' @ ''.sol''))"
  let ?envB = "item_world ?ext (input_path_of ''access_control'' (''B'' @ ''.sol''))"
  let ?d = "JObject [(''start'', JInt 100), (''end'', JInt 103), (''duration'', JInt 3),
        (''contract'', JString ''B.sol''), (''tool'', JString ''mythril'')]"
  have run: "batch_run ?first = run_batch ?ext ?nl ?il (start_state Map.empty)"
    by (simp add: batch_run_def)
  have a1: "batch_items ?il = [] @ (''access_control'', ''A'' @ ''.sol'')
        # [(''access_control'', ''B.sol''), (''access_control'', ''C.sol'')]"
    by (simp add: batch_items_def)
  have a2: "''A'' @ ''.sol''
        \<notin> snd ` set ([] @ [(''access_control'', ''B.sol''), (''access_control'', ''C.sol'')])"
    by simp
  have a3: "''A'' \<in> mythril_contract_names ?nl"
    by (simp add: mythril_contract_names_def)
  have a4: "(Map.empty :: string \<rightharpoonup> file_content) (output_path_of ''A'') = None"
    by simp
  have srcA: "source_text ?envA = Inr ''contract C {}''"
    by (simp add: batch_ext_def batch_world_def scenario_env_def)
  have repA: "reply ?envA = Inl (OtherError ''timeout'')"
    by (simp add: batch_ext_def batch_world_def scenario_env_def)
  from failure_isolation [OF a1 a2 a3 a4 refl refl refl refl refl refl refl,
      where ext = ?ext and contract_code = "''contract C {}''" and x = "OtherError ''timeout''"]
  have "source_text ?envA = Inr ''contract C {}'' \<and> reply ?envA = Inl (OtherError ''timeout'') \<longrightarrow>
      {e. (''A'', e) \<in> set (errors (run_batch ?ext ?nl ?il (start_state Map.empty)))} =
        {OtherError ''timeout''}
      \<and> out_files (run_batch ?ext ?nl ?il (start_state Map.empty)) (output_path_of ''A'') = None
      \<and> out_files (run_batch ?ext ?nl ?il (start_state Map.empty)) (raw_path_of ''A'') =
          Map.empty (raw_path_of ''A'')"
    by (rule conjunct2 [THEN conjunct1])
  with srcA repA have resA: "{e. (''A'', e) \<in> set (errors (batch_run ?first))} = {OtherError ''timeout''}"
    "out_files (batch_run ?first) (output_path_of ''A'') = None"
    "out_files (batch_run ?first) (raw_path_of ''A'') = None"
    unfolding run by simp_all
  have b1: "batch_items ?il = [(''access_control'', ''A.sol'')] @ (''access_control'', ''B'' @ ''.sol'')
        # [(''access_control'', ''C.sol'')]"
    by (simp add: batch_items_def)
  have b2: "''B'' @ ''.sol''
        \<notin> snd ` set ([(''access_control'', ''A.sol'')] @ [(''access_control'', ''C.sol'')])"
    by simp
  have b3: "''B'' \<in> mythril_contract_names ?nl"
    by (simp add: mythril_contract_names_def)
  have b4: "(Map.empty :: string \<rightharpoonup> file_content) (output_path_of ''B'') = None"
    by simp
  have envB: "?envB = scenario_env ''{}''"
    by (simp add: batch_ext_def batch_world_def input_path_of_def path_join_def)
  have premB: "source_text ?envB = Inr ''contract C {}'' \<and> reply ?envB = Inr ''{}''
      \<and> json_loads ?ext (strip_fences ''{}'') = Inr (JObject [])
      \<and> backfill (start_clock ?envB) (end_clock ?envB) (end_clock ?envB - start_clock ?envB)
           (''B'' @ ''.sol'') (JObject []) = Inr ?d
      \<and> json_write ?envB = NoFault"
    unfolding envB
    by (simp add: batch_ext_def scenario_env_def scenario_loads_def strip_fences_def
        strip_closer_def strip_def startswith_def endswith_def isspace_def backfill_def
        ensure_field_def)
  from failure_isolation [OF b1 b2 b3 b4 refl refl refl refl refl refl refl,
      where ext = ?ext and contract_code = "''contract C {}''" and w = "''{}''"
        and v = "JObject []" and d = ?d]
  have "source_text ?envB = Inr ''contract C {}'' \<and> reply ?envB = Inr ''{}''
      \<and> json_loads ?ext (strip_fences ''{}'') = Inr (JObject [])
      \<and> backfill (start_clock ?envB) (end_clock ?envB) (end_clock ?envB - start_clock ?envB)
           (''B'' @ ''.sol'') (JObject []) = Inr ?d
      \<and> json_write ?envB = NoFault \<longrightarrow>
      {e. (''B'', e) \<in> set (errors (run_batch ?ext ?nl ?il (start_state Map.empty)))} = {}
      \<and> out_files (run_batch ?ext ?nl ?il (start_state Map.empty)) (output_path_of ''B'') =
          Some (JsonText ?d)
      \<and> out_files (run_batch ?ext ?nl ?il (start_state Map.empty)) (raw_path_of ''B'') =
          Map.empty (raw_path_of ''B'')"
    by (rule conjunct2 [THEN conjunct2, THEN conjunct2, THEN conjunct2, THEN conjunct2,
        THEN conjunct2, THEN conjunct1])
  with premB have resB: "{e. (''B'', e) \<in> set (errors (batch_run ?first))} = {}"
    "out_files (batch_run ?first) (output_path_of ''B'') = Some (JsonText ?d)"
    "out_files (batch_run ?first) (raw_path_of ''B'') = None"
    unfolding run by simp_all
  from a1 a2 a3 srcA repA resA b1 resB show ?thesis
    by (intro conjI)
qed

text \<open>
  Claim C9 as stated fails when the write of the report raises after the file was
  opened: the error is reported, the other contracts get their files, and the failing
  contract leaves a truncated report file behind.
\<close>

theorem failed_write_leaves_truncated_file:
  "errors (batch_run ((scenario_env ''{}'')\<lparr>json_write := WriteFault ''No space left on device''\<rparr>)) =
     [(''A'', OtherError ''No space left on device'')]
   \<and> out_files (batch_run ((scenario_env ''{}'')\<lparr>json_write := WriteFault ''No space left on device''\<rparr>))
        (output_path_of ''A'') = Some Truncated
   \<and> out_files (batch_run ((scenario_env ''{}'')\<lparr>json_write := WriteFault ''No space left on device''\<rparr>))
        (output_path_of ''B'') =
      Some (JsonText (JObject [(''start'', JInt 100), (''end'', JInt 103), (''duration'', JInt 3),
        (''contract'', JString ''B.sol''), (''tool'', JString ''mythril'')]))
   \<and> out_files (batch_run ((scenario_env ''{}'')\<lparr>json_write := WriteFault ''No space left on device''\<rparr>))
        (raw_path_of ''C'') = Some (RawText ''not json at all'')"
  by (simp add: batch_run_simps)

end
